theory Spec2Isabelle
  imports Main "HOL-Library.Word"
begin

unbundle bit_operations_syntax

section \<open>Wire integers and byte buffers\<close>

text \<open>
  \<^verbatim>\<open>buffer_t\<close> is the byte vector of the repository (\<^verbatim>\<open>new buffer_t(n)\<close> makes \<open>n\<close> zero
  bytes, \<^verbatim>\<open>->size()\<close>, \<^verbatim>\<open>->at(i)\<close>).  \<^verbatim>\<open>int16_t\<close> and \<^verbatim>\<open>int32_t\<close> are words; \<open>sint\<close> reads
  them as two's complement.  All integers on the wire are big-endian.
\<close>

type_synonym byte = "8 word"
type_synonym buffer_t = "byte list"
type_synonym int16 = "16 word"
type_synonym int32 = "32 word"

definition be16 :: "int16 \<Rightarrow> buffer_t" where
  "be16 w = [ucast (drop_bit 8 w), ucast w]"

definition be32 :: "int32 \<Rightarrow> buffer_t" where
  "be32 w = [ucast (drop_bit 24 w), ucast (drop_bit 16 w), ucast (drop_bit 8 w), ucast w]"

definition read_be32 :: "buffer_t \<Rightarrow> int32" where
  "read_be32 bs =
     (case bs of
        b0 # b1 # b2 # b3 # _ \<Rightarrow>
          push_bit 24 (ucast b0) OR push_bit 16 (ucast b1) OR push_bit 8 (ucast b2) OR ucast b3
      | _ \<Rightarrow> 0)"

text \<open>\<^verbatim>\<open>new buffer_t(n)\<close>: a vector of \<open>n\<close> value-initialised bytes.\<close>

definition new_buffer_t :: "nat \<Rightarrow> buffer_t" where
  "new_buffer_t n = replicate n 0"

section \<open>Protocol headers and the packet codec\<close>

record RequestHeader =
  api_key :: int16
  api_version :: int16
  correlation_id :: int32
  client_id :: string

record ResponseHeader =
  resp_correlation_id :: int32

text \<open>
  Modelled from the spec: \<^verbatim>\<open>PacketDecoder\<close> (its source file is not part of the sources at
  hand).  Section 4.5 of the specification: the response header is decoded from the 8-byte
  slice as two big-endian 32-bit integers, and \<^verbatim>\<open>wrap_body\<close> returns a decoder over the body
  bytes.  A read past the end of the buffer puts the decoder into its error state
  (\<^verbatim>\<open>Protocol(DecodeError)\<close>); further reads do nothing.
\<close>

record PacketDecoder =
  buff :: buffer_t
  cursor :: nat
  err :: bool

text \<open>
  Modelled from the spec: the constructor \<^verbatim>\<open>PacketDecoder(buffer)\<close>, the spec's \<^verbatim>\<open>wrap_body\<close>:
  a decoder over the buffer, positioned at its start.
\<close>

definition PacketDecoder_of :: "buffer_t \<Rightarrow> PacketDecoder" where
  "PacketDecoder_of b = \<lparr>buff = b, cursor = 0, err = False\<rparr>"

text \<open>
  Modelled from the spec: \<^verbatim>\<open>PacketDecoder::io(int32_t&)\<close>, a big-endian 32-bit read at the
  cursor.  On failure the C++ variable is left as it was; the value returned here is 0 and
  no caller looks at it.
\<close>

definition io_int32 :: "PacketDecoder \<Rightarrow> int32 \<times> PacketDecoder" where
  "io_int32 pd =
     (if err pd then (0, pd)
      else if cursor pd + 4 \<le> length (buff pd)
        then (read_be32 (drop (cursor pd) (buff pd)), pd\<lparr>cursor := cursor pd + 4\<rparr>)
        else (0, pd\<lparr>err := True\<rparr>))"

text \<open>
  Modelled from the spec: \<^verbatim>\<open>PacketDecoder::io(proto::ResponseHeader&)\<close>; the response header
  is the correlation id alone.
\<close>

definition io_ResponseHeader :: "PacketDecoder \<Rightarrow> ResponseHeader \<times> PacketDecoder" where
  "io_ResponseHeader pd = (case io_int32 pd of (c, pd') \<Rightarrow> (\<lparr>resp_correlation_id = c\<rparr>, pd'))"

text \<open>
  Modelled from the spec: \<^verbatim>\<open>PacketDecoder::ok\<close> and \<^verbatim>\<open>PacketDecoder::err_str\<close>, the message
  of a decoder in its error state (the spec names the failure \<^verbatim>\<open>DecodeError\<close>).
\<close>

definition ok :: "PacketDecoder \<Rightarrow> bool" where
  "ok pd = (\<not> err pd)"

definition err_str :: "PacketDecoder \<Rightarrow> string" where
  "err_str pd = ''DecodeError''"

text \<open>
  Modelled from the spec: \<^verbatim>\<open>PacketEncoder::get_as_buffer_sequence_head\<close>.  Section 4.3: the
  total on-wire length is the encoded header size plus the body size, and it is prepended
  as a 4-byte big-endian prefix in front of the header bytes.
\<close>

definition get_as_buffer_sequence_head :: "buffer_t \<Rightarrow> nat \<Rightarrow> buffer_t" where
  "get_as_buffer_sequence_head hdr body_size = be32 (of_nat (length hdr + body_size)) @ hdr"

text \<open>
  \<^verbatim>\<open>header_encoder.io(req->header)\<close> followed by \<^verbatim>\<open>header_encoder.ok()\<close>: the encoder class is
  not part of the sources at hand, so the broker's writer takes it as a parameter: the
  encoded header bytes, or \<open>None\<close> when \<^verbatim>\<open>ok()\<close> is false.
\<close>

type_synonym header_encoder = "RequestHeader \<Rightarrow> buffer_t option"

text \<open>
  Modelled from the spec: one such encoder, following section 6: the request header is
  \<^verbatim>\<open>[api_key: i16][api_version: i16][correlation_id: i32][client_id: [len: i16][bytes]]\<close>,
  and a field that cannot be encoded (here a client id longer than an \<^verbatim>\<open>i16\<close> length can
  express) is an encode error.
\<close>

definition encode_RequestHeader :: header_encoder where
  "encode_RequestHeader h =
     (if length (client_id h) > 32767 then None
      else Some (be16 (api_key h) @ be16 (api_version h) @ be32 (correlation_id h)
                 @ be16 (of_nat (length (client_id h))) @ map of_char (client_id h)))"

section \<open>Promises\<close>

text \<open>
  \<^verbatim>\<open>boost::system::error_code\<close> is its integer value; \<^verbatim>\<open>if (ec)\<close> is \<open>ec \<noteq> 0\<close>.
  A \<^verbatim>\<open>std::promise<PacketDecoder>\<close> is its shared state: not yet satisfied, holding a value,
  or holding an exception.  \<^verbatim>\<open>set_value\<close> and \<^verbatim>\<open>set_exception\<close> on a satisfied promise throw
  \<^verbatim>\<open>std::future_error\<close>, which is \<open>None\<close> here.
\<close>

type_synonym error_code = int

datatype exception_ptr = system_error error_code | runtime_error string

datatype promise = Unset | Value PacketDecoder | Exception exception_ptr

definition set_value :: "promise \<Rightarrow> PacketDecoder \<Rightarrow> promise option" where
  "set_value p v = (case p of Unset \<Rightarrow> Some (Value v) | _ \<Rightarrow> None)"

definition set_exception :: "promise \<Rightarrow> exception_ptr \<Rightarrow> promise option" where
  "set_exception p e = (case p of Unset \<Rightarrow> Some (Exception e) | _ \<Rightarrow> None)"

section \<open>The broker\<close>

datatype ConnectionState = StateInit | StateConnecting | StateConnected | StateClosed

datatype RespHandlerState =
  RespHandlerStateIdle | RespHandlerStateReadHeader | RespHandlerStateReadResp

datatype synkafka_error = no_error | network_fail | network_timeout

record InFlightRequest =
  header :: RequestHeader
  packet :: buffer_t
  sent :: bool
  response_promise :: promise

record BrokerIdentity =
  node_id :: int32
  host :: string
  port :: int32

type_synonym endpoint = nat

text \<open>
  The asynchronous operations handed to the io service and not yet completed.  Each names
  the handler that its completion runs on the strand: \<open>async_resolve\<close> runs
  \<^verbatim>\<open>handle_resolve\<close>, \<open>async_connect\<close> runs \<^verbatim>\<open>handle_connect\<close> with the remaining endpoints,
  \<open>async_write\<close> runs \<^verbatim>\<open>handle_write\<close>, the two reads run \<^verbatim>\<open>response_handler_actor\<close> after
  filling \<^verbatim>\<open>header_buffer_\<close> or \<^verbatim>\<open>response_buffer_\<close>, \<open>post_push_request\<close> runs
  \<^verbatim>\<open>push_request\<close> and \<open>post_response_handler_actor\<close> runs
  \<^verbatim>\<open>response_handler_actor(error_code(), 0)\<close>.
\<close>

datatype io_op =
    async_resolve string int32
  | async_connect endpoint "endpoint list"
  | async_write "buffer_t list"
  | async_read_header nat
  | async_read_response nat
  | post_push_request InFlightRequest
  | post_response_handler_actor

text \<open>
  The fields of \<^verbatim>\<open>class Broker\<close>, named as in the class without the trailing underscore
  (\<open>broker_client_id\<close> is \<^verbatim>\<open>client_id_\<close>).  \<^verbatim>\<open>strand_\<close>, \<^verbatim>\<open>resolver_\<close> and the asynchronous
  side of \<^verbatim>\<open>socket_\<close> are the list \<open>pending\<close> of operations in flight; \<open>socket_open\<close> is
  \<^verbatim>\<open>socket_.is_open()\<close>.  \<open>fulfilled\<close> is not a field of the class: it keeps, in order, the
  requests that \<^verbatim>\<open>pop_front\<close> destroyed, each with the state its promise had then, which is
  what the \<^verbatim>\<open>std::future\<close> returned by \<^verbatim>\<open>call\<close> observes.
\<close>

record Broker =
  broker_client_id :: string
  identity :: BrokerIdentity
  next_correlation_id :: int32
  in_flight :: "InFlightRequest list"
  connection_state :: ConnectionState
  response_handler_state :: RespHandlerState
  header_buffer :: buffer_t
  response_buffer :: "buffer_t option"
  socket_open :: bool
  pending :: "io_op list"
  fulfilled :: "InFlightRequest list"

text \<open>\<^verbatim>\<open>Broker::Broker\<close>.\<close>

definition Broker_new :: "string \<Rightarrow> int32 \<Rightarrow> string \<Rightarrow> Broker" where
  "Broker_new h p cid =
     \<lparr>broker_client_id = cid,
      identity = \<lparr>node_id = 0, host = h, port = p\<rparr>,
      next_correlation_id = 1,
      in_flight = [],
      connection_state = StateInit,
      response_handler_state = RespHandlerStateIdle,
      header_buffer = new_buffer_t (4 + 4),
      response_buffer = None,
      socket_open = False,
      pending = [],
      fulfilled = []\<rparr>"

text \<open>\<^verbatim>\<open>Broker::close\<close>: idempotent; shuts the socket and moves to \<open>StateClosed\<close>.\<close>

definition close :: "Broker \<Rightarrow> Broker" where
  "close b =
     (if connection_state b = StateClosed then b
      else b\<lparr>socket_open := False, connection_state := StateClosed\<rparr>)"

definition is_connected :: "Broker \<Rightarrow> bool" where
  "is_connected b = (connection_state b = StateConnected)"

definition is_closed :: "Broker \<Rightarrow> bool" where
  "is_closed b = (connection_state b = StateClosed)"

text \<open>
  \<^verbatim>\<open>Broker::call\<close>: builds the request (correlation id 0 for now, \<open>sent\<close> false, a fresh
  promise) and posts \<^verbatim>\<open>push_request\<close> onto the strand.  \<^verbatim>\<open>KafkaApiVersion\<close> is a constant
  declared outside the sources at hand and is a parameter.
\<close>

definition call :: "int16 \<Rightarrow> int16 \<Rightarrow> buffer_t \<Rightarrow> Broker \<Rightarrow> Broker" where
  "call KafkaApiVersion key request_packet b =
     (let r = \<lparr>header = \<lparr>api_key = key, api_version = KafkaApiVersion,
                          correlation_id = 0, client_id = broker_client_id b\<rparr>,
               packet = request_packet,
               sent = False,
               response_promise = Unset\<rparr>
      in b\<lparr>pending := pending b @ [post_push_request r]\<rparr>)"

text \<open>
  A handler either returns, or leaves by a C++ exception with the broker as it was at the
  throw.  \<open>undefined_behaviour\<close> stands for a null or past-the-end dereference.
\<close>

datatype cpp_exception = future_error | out_of_range | length_error | undefined_behaviour

datatype 'a outcome = Returns 'a | Throws cpp_exception 'a

fun state_of :: "'a outcome \<Rightarrow> 'a" where
  "state_of (Returns b) = b"
| "state_of (Throws e b) = b"

text \<open>
  \<^verbatim>\<open>Broker::wait_for_connect\<close>.  The mutex is released while the caller blocks on the
  condition variable and, in the \<open>StateInit\<close> case, between \<^verbatim>\<open>lk.unlock()\<close> and the lock taken
  by the recursive call.  What the other threads did to \<open>connection_state\<close> in the meantime
  is an \<open>interleaving\<close>: nothing, \<^verbatim>\<open>handle_connect\<close> succeeded, or \<^verbatim>\<open>close\<close> ran (no code
  assigns \<open>StateInit\<close>).  \<^verbatim>\<open>wait_for\<close> returns its predicate
  \<^verbatim>\<open>connection_state_ != StateConnecting\<close> as evaluated when the wait ends; how long the wait
  lasts is not modelled.
\<close>

datatype interleaving = Undisturbed | Connected_meanwhile | Closed_meanwhile

fun other_threads :: "interleaving \<Rightarrow> Broker \<Rightarrow> Broker" where
  "other_threads Undisturbed b = b"
| "other_threads Connected_meanwhile b = b\<lparr>connection_state := StateConnected\<rparr>"
| "other_threads Closed_meanwhile b = close b"

function wait_for_connect ::
  "int32 \<Rightarrow> interleaving \<Rightarrow> interleaving \<Rightarrow> Broker \<Rightarrow> synkafka_error \<times> Broker" where
  "wait_for_connect milliseconds relock wake b =
     (case connection_state b of
        StateConnected \<Rightarrow> (no_error, b)
      | StateClosed \<Rightarrow> (network_fail, b)
      | StateConnecting \<Rightarrow>
          (let b' = other_threads wake b;
               ok = (connection_state b' \<noteq> StateConnecting)
           in if \<not> ok then (network_timeout, b')
              else if connection_state b' = StateClosed then (network_fail, b')
              else (no_error, b'))
      | StateInit \<Rightarrow>
          (let b1 = b\<lparr>connection_state := StateConnecting\<rparr>;
               b2 = b1\<lparr>pending := pending b1
                        @ [async_resolve (host (identity b1)) (port (identity b1))]\<rparr>
           in wait_for_connect milliseconds relock wake (other_threads relock b2)))"
  by pat_completeness auto
termination
proof (relation "measure (\<lambda>(ms, rl, wk, b). if connection_state b = StateInit then 1 else 0)")
  show "wf (measure (\<lambda>(ms, rl, wk, b). if connection_state b = StateInit then 1 else (0::nat)))"
    by simp
next
  fix milliseconds :: int32 and relock wake :: interleaving and b x b1 :: Broker
  assume "connection_state b = StateInit"
    and "x = b\<lparr>connection_state := StateConnecting\<rparr>"
    and "b1 = x\<lparr>pending := pending x @ [async_resolve (host (identity x)) (port (identity x))]\<rparr>"
  then show "((milliseconds, relock, wake, other_threads relock b1), (milliseconds, relock, wake, b))
      \<in> measure (\<lambda>(ms, rl, wk, b). if connection_state b = StateInit then 1 else 0)"
    by (cases relock) (simp_all add: close_def)
qed

text \<open>\<^verbatim>\<open>Broker::write_next_request\<close>.\<close>

definition write_next_request :: "header_encoder \<Rightarrow> Broker \<Rightarrow> Broker" where
  "write_next_request header_encoder b =
     (case in_flight b of
        [] \<Rightarrow> b
      | req # _ \<Rightarrow>
          if sent req then b
          else (case header_encoder (header req) of
                  None \<Rightarrow> b
                | Some encoded \<Rightarrow>
                    (let request_buffer = packet req;
                         head_buffer = get_as_buffer_sequence_head encoded (length request_buffer)
                     in b\<lparr>pending := pending b @ [async_write [head_buffer, request_buffer]]\<rparr>)))"

text \<open>
  \<^verbatim>\<open>Broker::handle_resolve\<close>.  The iterator is the list of endpoints still to try; on success
  the first is dereferenced (past-the-end when the list is empty) and
  \<^verbatim>\<open>async_connect\<close> opens the socket.
\<close>

definition handle_resolve :: "error_code \<Rightarrow> endpoint list \<Rightarrow> Broker \<Rightarrow> Broker outcome" where
  "handle_resolve ec endpoint_iterator b =
     (if ec \<noteq> 0 then Returns (close b)
      else (case endpoint_iterator of
              [] \<Rightarrow> Throws undefined_behaviour b
            | endpoint # rest \<Rightarrow>
                Returns (b\<lparr>socket_open := True,
                           pending := pending b @ [async_connect endpoint rest]\<rparr>)))"

text \<open>\<^verbatim>\<open>Broker::handle_connect\<close>.\<close>

definition handle_connect ::
  "header_encoder \<Rightarrow> error_code \<Rightarrow> endpoint list \<Rightarrow> Broker \<Rightarrow> Broker" where
  "handle_connect header_encoder ec endpoint_iterator b =
     (if ec = 0 then
        (let b1 = b\<lparr>connection_state := StateConnected\<rparr>
         in if in_flight b1 \<noteq> [] then write_next_request header_encoder b1 else b1)
      else (case endpoint_iterator of
              endpoint # rest \<Rightarrow>
                b\<lparr>socket_open := True, pending := pending b @ [async_connect endpoint rest]\<rparr>
            | [] \<Rightarrow> close b))"

text \<open>\<^verbatim>\<open>Broker::push_request\<close>.\<close>

definition push_request :: "header_encoder \<Rightarrow> InFlightRequest \<Rightarrow> Broker \<Rightarrow> Broker" where
  "push_request header_encoder req b =
     (if is_closed b then b
      else
        (let req' = req\<lparr>header := (header req)\<lparr>correlation_id := next_correlation_id b\<rparr>\<rparr>;
             b1 = b\<lparr>next_correlation_id := next_correlation_id b + 1\<rparr>;
             b2 = b1\<lparr>in_flight := in_flight b1 @ [req']\<rparr>
         in if is_connected b2 then write_next_request header_encoder b2 else b2))"

text \<open>\<^verbatim>\<open>Broker::handle_write\<close>.\<close>

definition handle_write :: "error_code \<Rightarrow> nat \<Rightarrow> Broker \<Rightarrow> Broker outcome" where
  "handle_write ec bytes_written b =
     (case in_flight b of
        [] \<Rightarrow> Returns b
      | req # rest \<Rightarrow>
          if ec \<noteq> 0 then
            (case set_exception (response_promise req) (system_error ec) of
               None \<Rightarrow> Throws future_error b
             | Some p \<Rightarrow>
                 Returns (b\<lparr>in_flight := rest,
                            fulfilled := fulfilled b @ [req\<lparr>response_promise := p\<rparr>]\<rparr>))
          else
            (let b1 = b\<lparr>in_flight := req\<lparr>sent := True\<rparr> # rest\<rparr>
             in if response_handler_state b1 = RespHandlerStateIdle
                then Returns (b1\<lparr>pending := pending b1 @ [post_response_handler_actor]\<rparr>)
                else Returns b1))"

text \<open>
  The reader's failure idiom, written at each of its four failure exits:
  \<^verbatim>\<open>req->response_promise.set_exception(...); close(); return;\<close> on the head of the queue.
  The head stays in the queue.
\<close>

definition fail_head_and_close :: "exception_ptr \<Rightarrow> Broker \<Rightarrow> Broker outcome" where
  "fail_head_and_close e b =
     (case in_flight b of
        [] \<Rightarrow> Throws undefined_behaviour b
      | req # rest \<Rightarrow>
          (case set_exception (response_promise req) e of
             None \<Rightarrow> Throws future_error b
           | Some p \<Rightarrow> Returns (close (b\<lparr>in_flight := req\<lparr>response_promise := p\<rparr> # rest\<rparr>))))"

text \<open>
  \<^verbatim>\<open>Broker::response_handler_actor\<close>.  The buffers hold what the completed read put there.
  \<^verbatim>\<open>&buf->at(0)\<close> throws \<^verbatim>\<open>std::out_of_range\<close> on an empty vector; \<^verbatim>\<open>new buffer_t(response_len)\<close>
  with a negative \<^verbatim>\<open>int32_t\<close> asks for more than \<^verbatim>\<open>max_size()\<close> and throws
  \<^verbatim>\<open>std::length_error\<close>; \<^verbatim>\<open>response_len -= sizeof(h.correlation_id)\<close> is the 32-bit subtraction.
\<close>

function response_handler_actor :: "error_code \<Rightarrow> nat \<Rightarrow> Broker \<Rightarrow> Broker outcome" where
  "response_handler_actor ec n b =
     (if \<not> is_connected b \<or> in_flight b = [] then Returns b
      else if ec \<noteq> 0 then fail_head_and_close (system_error ec) b
      else
        (case response_handler_state b of
           RespHandlerStateIdle \<Rightarrow>
             (let b1 = b\<lparr>response_handler_state := RespHandlerStateReadHeader\<rparr>
              in if header_buffer b1 = [] then Throws out_of_range b1
                 else Returns (b1\<lparr>pending := pending b1
                                 @ [async_read_header (length (header_buffer b1))]\<rparr>))
         | RespHandlerStateReadHeader \<Rightarrow>
             (let b1 = b\<lparr>response_handler_state := RespHandlerStateReadResp\<rparr>;
                  pd0 = PacketDecoder_of (header_buffer b1);
                  (response_len, pd1) = io_int32 pd0;
                  (h, pd) = io_ResponseHeader pd1
              in if \<not> ok pd then fail_head_and_close (runtime_error (err_str pd)) b1
                 else if correlation_id (header (hd (in_flight b1))) \<noteq> resp_correlation_id h
                 then fail_head_and_close (runtime_error ''Correlation ID mismatch'') b1
                 else
                   (let response_len' = response_len - 4
                    in if sint response_len' < 0 then Throws length_error b1
                       else
                         (let b2 = b1\<lparr>response_buffer :=
                                         Some (new_buffer_t (nat (sint response_len')))\<rparr>
                          in if nat (sint response_len') = 0 then Throws out_of_range b2
                             else Returns (b2\<lparr>pending := pending b2
                                    @ [async_read_response (nat (sint response_len'))]\<rparr>))))
         | RespHandlerStateReadResp \<Rightarrow>
             (let b1 = b\<lparr>response_handler_state := RespHandlerStateIdle\<rparr>
              in case response_buffer b1 of
                   None \<Rightarrow> Throws undefined_behaviour b1
                 | Some rb \<Rightarrow>
                     if n < length rb
                     then fail_head_and_close (runtime_error ''Not enough bytes read'') b1
                     else
                       (let pd = PacketDecoder_of rb;
                            req = hd (in_flight b1)
                        in case set_value (response_promise req) pd of
                             None \<Rightarrow> Throws future_error b1
                           | Some p \<Rightarrow>
                               (let b2 = b1\<lparr>in_flight := tl (in_flight b1),
                                            fulfilled := fulfilled b1
                                              @ [req\<lparr>response_promise := p\<rparr>]\<rparr>
                                in if in_flight b2 \<noteq> [] then
                                     (if sent (hd (in_flight b2))
                                      then response_handler_actor ec 0 b2
                                      else Returns b2)
                                   else Returns b2)))))"
  by pat_completeness auto
termination
  by (relation "measure (\<lambda>(ec, n, b).
        if response_handler_state b = RespHandlerStateReadResp then 1 else 0)") auto

section \<open>Runs of the broker\<close>

text \<open>
  A completed \<^verbatim>\<open>async_read\<close> has copied the bytes it transferred to the front of the
  buffer it was given.
\<close>

definition received :: "buffer_t \<Rightarrow> buffer_t \<Rightarrow> buffer_t" where
  "received data buf = take (length buf) (data @ drop (length data) buf)"

text \<open>
  The states a broker can be in between two handlers.  User threads construct the broker,
  \<^verbatim>\<open>call\<close> it, \<^verbatim>\<open>wait_for_connect\<close> and \<^verbatim>\<open>close\<close> it; the io service completes one pending
  operation at a time, in any order and with any result, and runs its handler on the
  strand.  A read transfers at most the size it was asked for, and exactly that size when
  it reports no error; a successful resolve yields at least one endpoint.  A handler that
  throws leaves the broker as it was at the throw.
\<close>

inductive reachable :: "header_encoder \<Rightarrow> Broker \<Rightarrow> bool" for enc :: header_encoder where
  constructed:
    "reachable enc (Broker_new h p cid)"
| user_call:
    "reachable enc b \<Longrightarrow> reachable enc (call version key request_packet b)"
| user_wait_for_connect:
    "reachable enc b \<Longrightarrow>
     reachable enc (snd (wait_for_connect milliseconds Undisturbed Undisturbed b))"
| user_close:
    "reachable enc b \<Longrightarrow> reachable enc (close b)"
| run_push_request:
    "reachable enc b \<Longrightarrow> pending b = ops @ post_push_request req # ops' \<Longrightarrow>
     reachable enc (push_request enc req (b\<lparr>pending := ops @ ops'\<rparr>))"
| resolve_completes:
    "reachable enc b \<Longrightarrow> pending b = ops @ async_resolve h p # ops' \<Longrightarrow>
     (ec = 0 \<longrightarrow> endpoints \<noteq> []) \<Longrightarrow>
     reachable enc (state_of (handle_resolve ec endpoints (b\<lparr>pending := ops @ ops'\<rparr>)))"
| connect_completes:
    "reachable enc b \<Longrightarrow> pending b = ops @ async_connect e rest # ops' \<Longrightarrow>
     reachable enc (handle_connect enc ec rest (b\<lparr>pending := ops @ ops'\<rparr>))"
| write_completes:
    "reachable enc b \<Longrightarrow> pending b = ops @ async_write buffers # ops' \<Longrightarrow>
     reachable enc (state_of (handle_write ec bytes_written (b\<lparr>pending := ops @ ops'\<rparr>)))"
| read_header_completes:
    "reachable enc b \<Longrightarrow> pending b = ops @ async_read_header k # ops' \<Longrightarrow>
     length data \<le> k \<Longrightarrow> (ec = 0 \<longrightarrow> length data = k) \<Longrightarrow>
     reachable enc (state_of (response_handler_actor ec (length data)
        (b\<lparr>pending := ops @ ops', header_buffer := received data (header_buffer b)\<rparr>)))"
| read_response_completes:
    "reachable enc b \<Longrightarrow> pending b = ops @ async_read_response k # ops' \<Longrightarrow>
     length data \<le> k \<Longrightarrow> (ec = 0 \<longrightarrow> length data = k) \<Longrightarrow>
     reachable enc (state_of (response_handler_actor ec (length data)
        (b\<lparr>pending := ops @ ops',
           response_buffer := map_option (received data) (response_buffer b)\<rparr>)))"
| run_response_handler_actor:
    "reachable enc b \<Longrightarrow> pending b = ops @ post_response_handler_actor # ops' \<Longrightarrow>
     reachable enc (state_of (response_handler_actor 0 0 (b\<lparr>pending := ops @ ops'\<rparr>)))"

text \<open>
  The correlation ids of the queue, in queue order, and what ties them to the counter:
  each id plus the number of entries from it to the tail is the counter, in 32-bit
  arithmetic.  So consecutive entries differ by one and the last id is the counter minus
  one.
\<close>

definition queue_ids :: "Broker \<Rightarrow> int32 list" where
  "queue_ids b = map (\<lambda>r. correlation_id (header r)) (in_flight b)"

fun ids_end_at :: "int32 \<Rightarrow> int32 list \<Rightarrow> bool" where
  "ids_end_at c [] = True"
| "ids_end_at c (x # xs) = (x + of_nat (Suc (length xs)) = c \<and> ids_end_at c xs)"

text \<open>
  What holds between two handlers of a run: at most one resolve or connect is pending, and
  none before the first \<^verbatim>\<open>wait_for_connect\<close> or once connected; a posted \<^verbatim>\<open>push_request\<close>
  carries a request whose promise is unset; and the promises of the queue are all unset
  unless the broker is closed with no connect pending.
\<close>

fun connects :: "io_op \<Rightarrow> bool" where
  "connects (async_resolve h p) = True"
| "connects (async_connect e rest) = True"
| "connects op = False"

fun posts_unset :: "io_op \<Rightarrow> bool" where
  "posts_unset (post_push_request r) = (response_promise r = Unset)"
| "posts_unset op = True"

definition all_unset :: "InFlightRequest list \<Rightarrow> bool" where
  "all_unset q = list_all (\<lambda>r. response_promise r = Unset) q"

definition run_invariant :: "Broker \<Rightarrow> bool" where
  "run_invariant b =
     (length (filter connects (pending b)) \<le> 1
      \<and> (connection_state b = StateInit \<or> connection_state b = StateConnected
           \<longrightarrow> filter connects (pending b) = [])
      \<and> list_all posts_unset (pending b)
      \<and> (all_unset (in_flight b)
           \<or> connection_state b = StateClosed \<and> filter connects (pending b) = []))"

text \<open>
  What the reader can do to the connection state, the queue and the pending operations:
  it closes a connected broker, or it leaves the state alone and keeps the queue or drops
  its head; the entries it keeps in an open connection keep their promises.
\<close>

definition reader_shape :: "Broker \<Rightarrow> Broker \<Rightarrow> bool" where
  "reader_shape b b' =
     (filter connects (pending b') = filter connects (pending b)
      \<and> list_all posts_unset (pending b') = list_all posts_unset (pending b)
      \<and> (is_connected b \<and> connection_state b' = StateClosed
          \<or> connection_state b' = connection_state b
             \<and> set (in_flight b') \<subseteq> set (in_flight b)))"

section \<open>Example states\<close>

text \<open>
  The request that \<^verbatim>\<open>call\<close> builds for api key 18 with an empty body on a broker whose client
  id is \<open>cid\<close> (the first scenario of the specification has \<^verbatim>\<open>c1\<close>), and the same request
  once enqueued with correlation id \<open>i\<close>.
\<close>

definition request_of :: "string \<Rightarrow> InFlightRequest" where
  "request_of cid =
     \<lparr>header = \<lparr>api_key = 18, api_version = 0, correlation_id = 0, client_id = cid\<rparr>,
      packet = [], sent = False, response_promise = Unset\<rparr>"

definition scenario_request :: InFlightRequest where
  "scenario_request = request_of ''c1''"

definition enqueued :: "int32 \<Rightarrow> InFlightRequest" where
  "enqueued i = scenario_request\<lparr>header := (header scenario_request)\<lparr>correlation_id := i\<rparr>\<rparr>"

text \<open>A connected broker with an empty queue and nothing pending.\<close>

definition connected_broker_of :: "string \<Rightarrow> Broker" where
  "connected_broker_of cid =
     (Broker_new ''kafka'' 9092 cid)\<lparr>connection_state := StateConnected, socket_open := True\<rparr>"

definition connected_broker :: Broker where
  "connected_broker = connected_broker_of ''c1''"

text \<open>A client id too long for the 16-bit length of its wire encoding.\<close>

definition long_client_id :: string where
  "long_client_id = replicate 32768 CHR ''x''"

text \<open>
  A connected broker whose only request, with correlation id 1, has been written, at the
  moment the 8-byte header read completes with the bytes \<open>hdr\<close>.
\<close>

definition header_arrives :: "buffer_t \<Rightarrow> Broker" where
  "header_arrives hdr =
     connected_broker\<lparr>next_correlation_id := 2,
                      in_flight := [(enqueued 1)\<lparr>sent := True\<rparr>],
                      response_handler_state := RespHandlerStateReadHeader,
                      header_buffer := hdr\<rparr>"

text \<open>
  A connected broker with the requests \<open>reqs\<close> in flight, at the moment the read of the
  body completes with the bytes \<open>body\<close>, after the header \<open>hdr\<close>.
\<close>

definition body_arrives :: "InFlightRequest list \<Rightarrow> buffer_t \<Rightarrow> buffer_t \<Rightarrow> Broker" where
  "body_arrives reqs hdr body =
     connected_broker\<lparr>next_correlation_id := 1 + of_nat (length reqs),
                      in_flight := reqs,
                      response_handler_state := RespHandlerStateReadResp,
                      header_buffer := hdr,
                      response_buffer := Some body\<rparr>"

text \<open>
  The same broker once the header \<^verbatim>\<open>00 00 00 08 00 00 00 01\<close> has been accepted: the reader
  waits for the 4 bytes of the body.
\<close>

definition body_read_pending :: Broker where
  "body_read_pending =
     (header_arrives (be32 8 @ be32 1))
        \<lparr>response_handler_state := RespHandlerStateReadResp,
         response_buffer := Some (new_buffer_t 4),
         pending := [async_read_response 4]\<rparr>"



text \<open>
  The first request is written and the reader has been posted to wait for its response.
\<close>

definition first_request_sent :: Broker where
  "first_request_sent =
     connected_broker\<lparr>next_correlation_id := 2,
                      in_flight := [(enqueued 1)\<lparr>sent := True\<rparr>],
                      pending := [post_response_handler_actor]\<rparr>"

text \<open>
  The connected broker after \<open>n\<close> requests, each called, enqueued, written and failed by a
  write error (104) before the next call; and the same broker with two further requests in
  flight, the first written, the second called after that write completed.
\<close>

definition churn :: "nat \<Rightarrow> Broker" where
  "churn n =
     connected_broker\<lparr>next_correlation_id := 1 + of_nat n,
        fulfilled := map (\<lambda>i. (enqueued (1 + of_nat i))
                           \<lparr>response_promise := Exception (system_error 104)\<rparr>) [0..<n]\<rparr>"

definition two_in_flight :: "nat \<Rightarrow> Broker" where
  "two_in_flight n =
     (churn n)\<lparr>next_correlation_id := 1 + of_nat n + 2,
        in_flight := [(enqueued (1 + of_nat n))\<lparr>sent := True\<rparr>, enqueued (1 + of_nat n + 1)],
        pending := [post_response_handler_actor]\<rparr>"

text \<open>The broker after \<open>n\<close> calls made before any connection attempt.\<close>

definition flood :: "nat \<Rightarrow> Broker" where
  "flood n =
     (Broker_new ''kafka'' 9092 ''c1'')\<lparr>next_correlation_id := 1 + of_nat n,
        in_flight := map (\<lambda>i. enqueued (1 + of_nat i)) [0..<n]\<rparr>"

section \<open>Facts about the codec\<close>

declare response_handler_actor.simps [simp del]
declare wait_for_connect.simps [simp del]

lemma length_be32 [simp]: "length (be32 w) = 4"
  by (simp add: be32_def)

lemma read_be32_be32: "read_be32 (be32 w @ rest) = w"
proof -
  have "push_bit 24 (ucast (ucast (drop_bit 24 w) :: byte)) OR
        push_bit 16 (ucast (ucast (drop_bit 16 w) :: byte)) OR
        push_bit 8 (ucast (ucast (drop_bit 8 w) :: byte)) OR ucast (ucast w :: byte) = w"
  proof (rule bit_word_eqI)
    fix n assume n: "n < LENGTH(32)"
    consider "n < 8" | "8 \<le> n" "n < 16" | "16 \<le> n" "n < 24" | "24 \<le> n" "n < 32"
      using n by fastforce
    then show "bit (push_bit 24 (ucast (ucast (drop_bit 24 w) :: byte)) OR
        push_bit 16 (ucast (ucast (drop_bit 16 w) :: byte)) OR
        push_bit 8 (ucast (ucast (drop_bit 8 w) :: byte)) OR (ucast (ucast w :: byte) :: int32)) n
        = bit w n"
      by cases (auto simp: bit_simps)
  qed
  then show ?thesis by (simp add: be32_def read_be32_def)
qed

lemma decode_response_header:
  "io_int32 (PacketDecoder_of (be32 total_length @ be32 corr_id))
     = (total_length, \<lparr>buff = be32 total_length @ be32 corr_id, cursor = 4, err = False\<rparr>)"
  "io_ResponseHeader \<lparr>buff = be32 total_length @ be32 corr_id, cursor = 4, err = False\<rparr>
     = (\<lparr>resp_correlation_id = corr_id\<rparr>,
        \<lparr>buff = be32 total_length @ be32 corr_id, cursor = 8, err = False\<rparr>)"
  using read_be32_be32 [of corr_id "[]"]
  by (simp_all add: io_int32_def io_ResponseHeader_def PacketDecoder_of_def read_be32_be32)

lemmas example_defs =
  request_of_def scenario_request_def enqueued_def connected_broker_of_def connected_broker_def
  header_arrives_def body_arrives_def Broker_new_def new_buffer_t_def

section \<open>The reader, step by step\<close>

lemma sint_of_nat_small: "K < 2 ^ 31 \<Longrightarrow> sint (of_nat K :: int32) = int K"
  by (simp add: signed_of_nat signed_take_bit_int_eq_self_iff)

lemma read_header_ok:
  assumes "is_connected b" and "in_flight b = req # rest"
    and "response_handler_state b = RespHandlerStateReadHeader"
    and "header_buffer b = be32 (4 + of_nat K) @ be32 (correlation_id (header req))"
    and "0 < K" and "K < 2 ^ 31 - 4"
  shows "response_handler_actor 0 n b =
           Returns (b\<lparr>response_handler_state := RespHandlerStateReadResp,
                      response_buffer := Some (new_buffer_t K),
                      pending := pending b @ [async_read_response K]\<rparr>)"
proof -
  have "sint (of_nat K :: int32) = int K"
    using assms(6) by (simp add: sint_of_nat_small) 
  then show ?thesis
    using assms
    by (subst response_handler_actor.simps)
       (simp add: decode_response_header ok_def Let_def is_connected_def)
qed

lemma idle_step:
  assumes "is_connected b" and "in_flight b \<noteq> []"
    and "response_handler_state b = RespHandlerStateIdle"
  shows "response_handler_actor 0 n b =
           (if header_buffer b = []
            then Throws out_of_range (b\<lparr>response_handler_state := RespHandlerStateReadHeader\<rparr>)
            else Returns (b\<lparr>response_handler_state := RespHandlerStateReadHeader,
                      pending := pending b @ [async_read_header (length (header_buffer b))]\<rparr>))"
  using assms
  by (subst response_handler_actor.simps) (simp add: Let_def)

lemma read_response_ok:
  assumes "is_connected b" and "in_flight b = req # rest" and "response_promise req = Unset"
    and "response_handler_state b = RespHandlerStateReadResp"
    and "response_buffer b = Some payload" and "length payload \<le> n"
  shows "response_handler_actor 0 n b =
     (if rest \<noteq> [] \<and> sent (hd rest)
      then response_handler_actor 0 0
             (b\<lparr>response_handler_state := RespHandlerStateIdle,
                in_flight := rest,
                fulfilled := fulfilled b
                  @ [req\<lparr>response_promise := Value (PacketDecoder_of payload)\<rparr>]\<rparr>)
      else Returns
             (b\<lparr>response_handler_state := RespHandlerStateIdle,
                in_flight := rest,
                fulfilled := fulfilled b
                  @ [req\<lparr>response_promise := Value (PacketDecoder_of payload)\<rparr>]\<rparr>))"
  using assms
  by (subst response_handler_actor.simps)
     (simp add: Let_def is_connected_def set_value_def)

lemma read_response_fulfils:
  assumes "is_connected b" and "in_flight b = req # rest" and "response_promise req = Unset"
    and "response_handler_state b = RespHandlerStateReadResp"
    and "response_buffer b = Some payload" and "length payload \<le> n"
  shows "fulfilled (state_of (response_handler_actor 0 n b)) =
           fulfilled b @ [req\<lparr>response_promise := Value (PacketDecoder_of payload)\<rparr>]"
    and "in_flight (state_of (response_handler_actor 0 n b)) = rest"
    and "connection_state (state_of (response_handler_actor 0 n b)) = StateConnected"
  using assms
  by (simp_all add: read_response_ok [OF assms] idle_step is_connected_def)

text \<open>
  A whole response frame \<^verbatim>\<open>be32(4 + K) || be32(corr_id) || payload[K]\<close> with \<open>K > 0\<close> and the
  head's correlation id: the header read allocates \<open>K\<close> bytes and asks for them, and the
  body read resolves the head with a decoder over exactly the payload and pops it.
\<close>

lemma response_delivered:
  assumes "is_connected b" and "in_flight b = req # rest" and "response_promise req = Unset"
    and "response_handler_state b = RespHandlerStateReadHeader"
    and "header_buffer b = be32 (4 + of_nat K) @ be32 (correlation_id (header req))"
    and "0 < K" and "K < 2 ^ 31 - 4" and "length payload = K"
  shows "\<exists>b1. response_handler_actor 0 8 b = Returns b1
           \<and> response_buffer b1 = Some (new_buffer_t K)
           \<and> pending b1 = pending b @ [async_read_response K]
           \<and> fulfilled (state_of (response_handler_actor 0 K
                (b1\<lparr>pending := pending b,
                    response_buffer := map_option (received payload) (response_buffer b1)\<rparr>)))
               = fulfilled b @ [req\<lparr>response_promise := Value (PacketDecoder_of payload)\<rparr>]
           \<and> in_flight (state_of (response_handler_actor 0 K
                (b1\<lparr>pending := pending b,
                    response_buffer := map_option (received payload) (response_buffer b1)\<rparr>)))
               = rest"
proof -
  let ?b1 = "b\<lparr>response_handler_state := RespHandlerStateReadResp,
                      response_buffer := Some (new_buffer_t K),
                      pending := pending b @ [async_read_response K]\<rparr>"
  let ?b2 = "?b1\<lparr>pending := pending b,
                    response_buffer := map_option (received payload) (response_buffer ?b1)\<rparr>"
  have 1: "response_handler_actor 0 8 b = Returns ?b1"
    using assms by (intro read_header_ok) auto
  have rb: "response_buffer ?b2 = Some payload"
    using assms(8) by (simp add: received_def new_buffer_t_def)
  have c: "is_connected ?b2" "in_flight ?b2 = req # rest"
    "response_handler_state ?b2 = RespHandlerStateReadResp" "length payload \<le> K"
    using assms by (simp_all add: is_connected_def)
  note f = read_response_fulfils [OF c(1,2) assms(3) c(3) rb c(4)]
  show ?thesis
    using 1 f(1,2) by (intro exI [of _ ?b1]) simp
qed


section \<open>The writer's frame\<close>

lemma write_next_request_frame:
  "in_flight (write_next_request enc b) = in_flight b"
  "next_correlation_id (write_next_request enc b) = next_correlation_id b"
  "connection_state (write_next_request enc b) = connection_state b"
  "fulfilled (write_next_request enc b) = fulfilled b"
  by (simp_all add: write_next_request_def Let_def split: list.splits option.splits)

section \<open>Runs\<close>

subsection \<open>A run that reaches the example states\<close>

lemma reachable_connecting:
  "reachable enc ((Broker_new ''kafka'' 9092 cid)
      \<lparr>connection_state := StateConnecting, pending := [async_resolve ''kafka'' 9092]\<rparr>)"
proof -
  have "snd (wait_for_connect 50 Undisturbed Undisturbed (Broker_new ''kafka'' 9092 cid))
      = (Broker_new ''kafka'' 9092 cid)
          \<lparr>connection_state := StateConnecting, pending := [async_resolve ''kafka'' 9092]\<rparr>"
    by (simp add: wait_for_connect.simps Broker_new_def Let_def)
  then show ?thesis
    using reachable.user_wait_for_connect [OF reachable.constructed, of enc 50 "''kafka''" 9092 cid]
    by simp
qed

lemma reachable_connected: "reachable enc (connected_broker_of cid)"
proof -
  let ?b1 = "(Broker_new ''kafka'' 9092 cid)
      \<lparr>connection_state := StateConnecting, pending := [async_resolve ''kafka'' 9092]\<rparr>"
  let ?b2 = "(Broker_new ''kafka'' 9092 cid)
      \<lparr>connection_state := StateConnecting, socket_open := True,
       pending := [async_connect 0 []]\<rparr>"
  have "pending ?b1 = [] @ async_resolve ''kafka'' 9092 # []"
    by simp
  then have "reachable enc (state_of (handle_resolve 0 [0] (?b1\<lparr>pending := [] @ []\<rparr>)))"
    using reachable_connecting by (intro reachable.resolve_completes) simp_all
  then have 2: "reachable enc ?b2"
    by (simp add: handle_resolve_def Broker_new_def)
  have "pending ?b2 = [] @ async_connect 0 [] # []"
    by simp
  with 2 have "reachable enc (handle_connect enc 0 [] (?b2\<lparr>pending := [] @ []\<rparr>))"
    by (rule reachable.connect_completes)
  then show ?thesis
    by (simp add: handle_connect_def connected_broker_of_def Broker_new_def)
qed

lemma reachable_after_push:
  "reachable enc (push_request enc (request_of cid) (connected_broker_of cid))"
proof -
  have "reachable enc (call 0 18 [] (connected_broker_of cid))"
    using reachable_connected by (rule reachable.user_call)
  moreover have "pending (call 0 18 [] (connected_broker_of cid))
      = [] @ post_push_request (request_of cid) # []"
    by (simp add: call_def connected_broker_of_def Broker_new_def request_of_def)
  ultimately have "reachable enc (push_request enc (request_of cid)
      ((call 0 18 [] (connected_broker_of cid))\<lparr>pending := [] @ []\<rparr>))"
    by (rule reachable.run_push_request)
  moreover have "(call 0 18 [] (connected_broker_of cid))\<lparr>pending := [] @ []\<rparr>
      = connected_broker_of cid"
    by (simp add: call_def connected_broker_of_def Broker_new_def)
  ultimately show ?thesis by simp
qed

lemma reachable_first_request_sent: "reachable encode_RequestHeader first_request_sent"
proof -
  let ?w = "async_write [[0,0,0,12, 0,18, 0,0, 0,0,0,1, 0,2, 99,49], []]"
  let ?b = "connected_broker\<lparr>next_correlation_id := 2, in_flight := [enqueued 1],
              pending := [?w]\<rparr>"
  have "push_request encode_RequestHeader (request_of ''c1'') (connected_broker_of ''c1'') = ?b"
    by (simp add: push_request_def write_next_request_def encode_RequestHeader_def Let_def
        get_as_buffer_sequence_head_def be16_def be32_def is_closed_def is_connected_def
        example_defs)
  then have "reachable encode_RequestHeader ?b"
    using reachable_after_push [of encode_RequestHeader "''c1''"] by simp
  moreover have "pending ?b = [] @ ?w # []"
    by simp
  ultimately have "reachable encode_RequestHeader
      (state_of (handle_write 0 16 (?b\<lparr>pending := [] @ []\<rparr>)))"
    by (rule reachable.write_completes)
  then show ?thesis
    by (simp add: handle_write_def first_request_sent_def example_defs)
qed

lemma header_arrives_in_run:
  assumes "length hdr = 8"
  shows "\<exists>b. reachable encode_RequestHeader b \<and> pending b = [async_read_header 8]
           \<and> header_arrives hdr = b\<lparr>pending := [], header_buffer := received hdr (header_buffer b)\<rparr>"
proof -
  let ?b = "connected_broker\<lparr>next_correlation_id := 2,
                      in_flight := [(enqueued 1)\<lparr>sent := True\<rparr>],
                      response_handler_state := RespHandlerStateReadHeader,
                      pending := [async_read_header 8]\<rparr>"
  have "pending first_request_sent = [] @ post_response_handler_actor # []"
    by (simp add: first_request_sent_def)
  with reachable_first_request_sent
  have "reachable encode_RequestHeader
      (state_of (response_handler_actor 0 0 (first_request_sent\<lparr>pending := [] @ []\<rparr>)))"
    by (rule reachable.run_response_handler_actor)
  moreover have "response_handler_actor 0 0 (first_request_sent\<lparr>pending := [] @ []\<rparr>) = Returns ?b"
    by (subst response_handler_actor.simps)
       (simp add: first_request_sent_def example_defs is_connected_def Let_def)
  ultimately have "reachable encode_RequestHeader ?b" by simp
  moreover have "header_arrives hdr = ?b\<lparr>pending := [], header_buffer := received hdr (header_buffer ?b)\<rparr>"
    using assms by (simp add: header_arrives_def received_def example_defs)
  ultimately show ?thesis by (intro exI [of _ ?b]) simp
qed

lemma header_arrives_outcome_reachable:
  assumes "length hdr = 8"
  shows "reachable encode_RequestHeader (state_of (response_handler_actor 0 8 (header_arrives hdr)))"
proof -
  obtain b where b: "reachable encode_RequestHeader b" "pending b = [async_read_header 8]"
    "header_arrives hdr = b\<lparr>pending := [], header_buffer := received hdr (header_buffer b)\<rparr>"
    using header_arrives_in_run [OF assms] by blast
  have "pending b = [] @ async_read_header 8 # []"
    using b(2) by simp
  moreover have "length hdr \<le> 8" "(0::int) = 0 \<longrightarrow> length hdr = 8"
    using assms by simp_all
  ultimately have "reachable encode_RequestHeader
      (state_of (response_handler_actor 0 (length hdr)
        (b\<lparr>pending := [] @ [], header_buffer := received hdr (header_buffer b)\<rparr>)))"
    using b(1) by (intro reachable.read_header_completes)
  then show ?thesis
    using assms b(3) by simp
qed

text \<open>
  The second request is enqueued while the first awaits its response; the response of the
  first arrives with a one-byte body.
\<close>

lemma two_requests_in_run:
  "\<exists>b. reachable encode_RequestHeader b \<and> pending b = [async_read_response 1]
     \<and> body_arrives [(enqueued 1)\<lparr>sent := True\<rparr>, enqueued 2] (be32 5 @ be32 1) [42]
         = b\<lparr>pending := [], response_buffer := map_option (received [42]) (response_buffer b)\<rparr>"
proof -
  let ?q = "[(enqueued 1)\<lparr>sent := True\<rparr>, enqueued 2]"
  let ?b1 = "connected_broker\<lparr>next_correlation_id := 3, in_flight := ?q,
               pending := [post_response_handler_actor]\<rparr>"
  let ?b2 = "connected_broker\<lparr>next_correlation_id := 3, in_flight := ?q,
               response_handler_state := RespHandlerStateReadHeader,
               pending := [async_read_header 8]\<rparr>"
  let ?b3 = "connected_broker\<lparr>next_correlation_id := 3, in_flight := ?q,
               response_handler_state := RespHandlerStateReadResp,
               header_buffer := be32 5 @ be32 1,
               response_buffer := Some [0],
               pending := [async_read_response 1]\<rparr>"
  have "reachable encode_RequestHeader (call 0 18 [] first_request_sent)"
    using reachable_first_request_sent by (rule reachable.user_call)
  moreover have "pending (call 0 18 [] first_request_sent)
      = [post_response_handler_actor] @ post_push_request scenario_request # []"
    by (simp add: call_def first_request_sent_def example_defs)
  ultimately have "reachable encode_RequestHeader (push_request encode_RequestHeader scenario_request
      ((call 0 18 [] first_request_sent)\<lparr>pending := [post_response_handler_actor] @ []\<rparr>))"
    by (rule reachable.run_push_request)
  moreover have "push_request encode_RequestHeader scenario_request
      ((call 0 18 [] first_request_sent)\<lparr>pending := [post_response_handler_actor] @ []\<rparr>) = ?b1"
    by (simp add: push_request_def write_next_request_def call_def first_request_sent_def
        is_closed_def is_connected_def Let_def example_defs)
  ultimately have 1: "reachable encode_RequestHeader ?b1" by simp
  have "pending ?b1 = [] @ post_response_handler_actor # []" by simp
  with 1 have "reachable encode_RequestHeader
      (state_of (response_handler_actor 0 0 (?b1\<lparr>pending := [] @ []\<rparr>)))"
    by (rule reachable.run_response_handler_actor)
  moreover have "response_handler_actor 0 0 (?b1\<lparr>pending := [] @ []\<rparr>) = Returns ?b2"
    by (subst response_handler_actor.simps) (simp add: example_defs is_connected_def Let_def)
  ultimately have 2: "reachable encode_RequestHeader ?b2" by simp
  have "pending ?b2 = [] @ async_read_header 8 # []" by simp
  moreover have "length (be32 5 @ be32 1) \<le> 8" "(0::int) = 0 \<longrightarrow> length (be32 5 @ be32 1) = 8"
    by simp_all
  ultimately have "reachable encode_RequestHeader
      (state_of (response_handler_actor 0 (length (be32 5 @ be32 1))
        (?b2\<lparr>pending := [] @ [],
             header_buffer := received (be32 5 @ be32 1) (header_buffer ?b2)\<rparr>)))"
    using 2 by (intro reachable.read_header_completes)
  moreover have "response_handler_actor 0 (length (be32 5 @ be32 1))
        (?b2\<lparr>pending := [] @ [],
             header_buffer := received (be32 5 @ be32 1) (header_buffer ?b2)\<rparr>) = Returns ?b3"
    by (subst response_handler_actor.simps)
       (simp add: example_defs is_connected_def Let_def received_def ok_def
          decode_response_header [of 5 1, simplified])
  ultimately have 3: "reachable encode_RequestHeader ?b3" by simp
  have "body_arrives ?q (be32 5 @ be32 1) [42]
      = ?b3\<lparr>pending := [], response_buffer := map_option (received [42]) (response_buffer ?b3)\<rparr>"
    by (simp add: body_arrives_def received_def example_defs)
  with 3 show ?thesis
    by (intro exI [of _ ?b3]) simp
qed

lemma unsent_successor_outcome_reachable:
  "reachable encode_RequestHeader (state_of (response_handler_actor 0 1
     (body_arrives [(enqueued 1)\<lparr>sent := True\<rparr>, enqueued 2] (be32 5 @ be32 1) [42])))"
proof -
  obtain b where b: "reachable encode_RequestHeader b" "pending b = [async_read_response 1]"
    "body_arrives [(enqueued 1)\<lparr>sent := True\<rparr>, enqueued 2] (be32 5 @ be32 1) [42]
       = b\<lparr>pending := [], response_buffer := map_option (received [42]) (response_buffer b)\<rparr>"
    using two_requests_in_run by blast
  have "pending b = [] @ async_read_response 1 # []"
    using b(2) by simp
  moreover have "length [42 :: byte] \<le> 1" "(0::int) = 0 \<longrightarrow> length [42 :: byte] = 1"
    by simp_all
  ultimately have "reachable encode_RequestHeader
      (state_of (response_handler_actor 0 (length [42 :: byte])
        (b\<lparr>pending := [] @ [],
           response_buffer := map_option (received [42]) (response_buffer b)\<rparr>)))"
    using b(1) by (intro reachable.read_response_completes)
  then show ?thesis
    using b(3) by simp
qed

text \<open>The body read of the only request's response ends early, with an error code.\<close>

lemma short_body_outcome_reachable:
  "reachable encode_RequestHeader (state_of (response_handler_actor 104 3
     (body_arrives [(enqueued 1)\<lparr>sent := True\<rparr>] (be32 8 @ be32 1) [1, 2, 3, 0])))"
proof -
  let ?q = "[(enqueued 1)\<lparr>sent := True\<rparr>]"
  let ?b = "(header_arrives (be32 8 @ be32 1))
              \<lparr>response_handler_state := RespHandlerStateReadResp,
               response_buffer := Some (new_buffer_t 4),
               pending := [async_read_response 4]\<rparr>"
  have "response_handler_actor 0 8 (header_arrives (be32 8 @ be32 1)) = Returns ?b"
    using read_header_ok [of "header_arrives (be32 (4 + of_nat 4) @ be32 1)"
        "(enqueued 1)\<lparr>sent := True\<rparr>" "[]" 4 8]
    by (simp add: example_defs is_connected_def)
  then have 1: "reachable encode_RequestHeader ?b"
    using header_arrives_outcome_reachable [of "be32 8 @ be32 1"] by simp
  have "pending ?b = [] @ async_read_response 4 # []"
    by simp
  moreover have "length [1, 2, 3 :: byte] \<le> 4" "(104::int) = 0 \<longrightarrow> length [1, 2, 3 :: byte] = 4"
    by simp_all
  ultimately have "reachable encode_RequestHeader
      (state_of (response_handler_actor 104 (length [1, 2, 3 :: byte])
        (?b\<lparr>pending := [] @ [],
            response_buffer := map_option (received [1, 2, 3]) (response_buffer ?b)\<rparr>)))"
    using 1 by (intro reachable.read_response_completes)
  moreover have "?b\<lparr>pending := [] @ [],
            response_buffer := map_option (received [1, 2, 3]) (response_buffer ?b)\<rparr>
      = body_arrives ?q (be32 8 @ be32 1) [1, 2, 3, 0]"
    by (simp add: example_defs received_def)
  ultimately show ?thesis by (simp add: eval_nat_numeral)
qed


text \<open>The header of the only request's response has been accepted.\<close>

lemma reachable_body_read_pending: "reachable encode_RequestHeader body_read_pending"
proof -
  have "response_handler_actor 0 8 (header_arrives (be32 8 @ be32 1)) = Returns body_read_pending"
    using read_header_ok [of "header_arrives (be32 (4 + of_nat 4) @ be32 1)"
        "(enqueued 1)\<lparr>sent := True\<rparr>" "[]" 4 8]
    by (simp add: body_read_pending_def example_defs is_connected_def)
  then show ?thesis
    using header_arrives_outcome_reachable [of "be32 8 @ be32 1"] by simp
qed

text \<open>
  The broker is closed while the body read is pending; the read then completes, aborted,
  with 3 of its 4 bytes.
\<close>

lemma closed_body_arrives:
  "(close body_read_pending)
      \<lparr>pending := [] @ [],
       response_buffer := map_option (received [1, 2, 3]) (response_buffer (close body_read_pending))\<rparr>
     = close (body_arrives [(enqueued 1)\<lparr>sent := True\<rparr>] (be32 8 @ be32 1) [1, 2, 3, 0])"
  by (simp add: body_read_pending_def close_def example_defs received_def)

lemma reachable_closed_body_read:
  "reachable encode_RequestHeader (close body_read_pending)"
  "pending (close body_read_pending) = [async_read_response 4]"
proof -
  show "reachable encode_RequestHeader (close body_read_pending)"
    using reachable_body_read_pending by (rule reachable.user_close)
  show "pending (close body_read_pending) = [async_read_response 4]"
    by (simp add: close_def body_read_pending_def)
qed


subsection \<open>Promises of a connected broker\<close>

lemma reader_shape_trans:
  "reader_shape a b \<Longrightarrow> reader_shape b c \<Longrightarrow> reader_shape a c"
  by (auto simp: reader_shape_def is_connected_def)

lemma fail_head_and_close_shape:
  "is_connected b \<Longrightarrow> reader_shape b (state_of (fail_head_and_close e b))"
  by (auto simp: fail_head_and_close_def reader_shape_def set_exception_def close_def
      is_connected_def split: list.splits promise.splits)

lemma reader_shape_frame:
  "reader_shape (b\<lparr>response_handler_state := s\<rparr>) b' = reader_shape b b'"
  by (simp add: reader_shape_def is_connected_def)

lemma idle_reader_shape:
  assumes "response_handler_state b = RespHandlerStateIdle"
  shows "reader_shape b (state_of (response_handler_actor ec n b))"
proof (cases "\<not> is_connected b \<or> in_flight b = []")
  case True
  then show ?thesis
    by (subst response_handler_actor.simps) (simp add: reader_shape_def)
next
  case False
  then show ?thesis
    using assms fail_head_and_close_shape [of b "system_error ec"]
    by (subst response_handler_actor.simps) (simp add: Let_def reader_shape_def)
qed

lemma header_reader_shape:
  assumes "response_handler_state b = RespHandlerStateReadHeader"
  shows "reader_shape b (state_of (response_handler_actor ec n b))"
proof (cases "\<not> is_connected b \<or> in_flight b = []")
  case True
  then show ?thesis
    by (subst response_handler_actor.simps) (simp add: reader_shape_def)
next
  case False
  then have c: "is_connected (b\<lparr>response_handler_state := RespHandlerStateReadResp\<rparr>)"
    by (simp add: is_connected_def)
  show ?thesis
    using False assms fail_head_and_close_shape [of b "system_error ec"]
      fail_head_and_close_shape [OF c, unfolded reader_shape_frame]
    by (subst response_handler_actor.simps)
       (simp add: Let_def split: prod.splits, simp add: reader_shape_def)
qed

lemma body_reader_shape:
  assumes "response_handler_state b = RespHandlerStateReadResp"
  shows "reader_shape b (state_of (response_handler_actor ec n b))"
proof (cases "\<not> is_connected b \<or> in_flight b = []")
  case True
  then show ?thesis
    by (subst response_handler_actor.simps) (simp add: reader_shape_def)
next
  case False
  then have c: "is_connected (b\<lparr>response_handler_state := RespHandlerStateIdle\<rparr>)"
    by (simp add: is_connected_def)
  have kept: "reader_shape b (b\<lparr>response_handler_state := RespHandlerStateIdle,
         in_flight := q, fulfilled := fs\<rparr>)"
    if "set q \<subseteq> set (in_flight b)" for q fs
    using that by (simp add: reader_shape_def)
  have popped: "reader_shape b (state_of (response_handler_actor e 0
      (b\<lparr>response_handler_state := RespHandlerStateIdle, in_flight := q, fulfilled := fs\<rparr>)))"
    if "set q \<subseteq> set (in_flight b)" for q fs e
  proof (rule reader_shape_trans)
    show "reader_shape b (b\<lparr>response_handler_state := RespHandlerStateIdle,
         in_flight := q, fulfilled := fs\<rparr>)"
      using that by (rule kept)
    show "reader_shape (b\<lparr>response_handler_state := RespHandlerStateIdle,
         in_flight := q, fulfilled := fs\<rparr>)
       (state_of (response_handler_actor e 0
         (b\<lparr>response_handler_state := RespHandlerStateIdle,
            in_flight := q, fulfilled := fs\<rparr>)))"
      by (rule idle_reader_shape) simp
  qed
  have sub: "set (tl (in_flight b)) \<subseteq> set (in_flight b)"
    by (cases "in_flight b") auto
  have idle: "reader_shape b (b\<lparr>response_handler_state := RespHandlerStateIdle\<rparr>)"
    by (simp add: reader_shape_def)
  show ?thesis
    using False assms fail_head_and_close_shape [of b "system_error ec"]
      fail_head_and_close_shape [OF c, unfolded reader_shape_frame]
      popped [OF sub] kept [OF sub] kept [of "[]"] idle
    by (subst response_handler_actor.simps)
       (simp add: Let_def split: option.splits)
qed

lemma response_handler_actor_shape:
  "reader_shape b (state_of (response_handler_actor ec n b))"
  by (cases "response_handler_state b")
     (simp_all add: idle_reader_shape header_reader_shape body_reader_shape)

lemma all_unset_subset: "all_unset q \<Longrightarrow> set q' \<subseteq> set q \<Longrightarrow> all_unset q'"
  by (auto simp: all_unset_def list_all_iff)

lemma run_invariant_reader:
  assumes "run_invariant b" and "reader_shape b b'"
  shows "run_invariant b'"
  using assms
  by (auto simp: run_invariant_def reader_shape_def is_connected_def dest: all_unset_subset)

lemma run_invariant_completed:
  assumes "run_invariant b" and "pending b = ops @ op # ops'"
  shows "\<not> connects op \<Longrightarrow> run_invariant (b\<lparr>pending := ops @ ops'\<rparr>)"
    and "connects op \<Longrightarrow> filter connects (ops @ ops') = []"
    and "connects op \<Longrightarrow> connection_state b \<noteq> StateInit \<and> connection_state b \<noteq> StateConnected
            \<and> all_unset (in_flight b)"
    and "list_all posts_unset (ops @ ops')"
    and "op = post_push_request r \<Longrightarrow> response_promise r = Unset"
  using assms
  by (auto simp: run_invariant_def split: if_splits)

lemma run_invariant_frame [simp]:
  "run_invariant (b\<lparr>header_buffer := hb\<rparr>) = run_invariant b"
  "run_invariant (b\<lparr>response_buffer := rb\<rparr>) = run_invariant b"
  by (simp_all add: run_invariant_def)

lemma write_next_request_pending:
  "filter connects (pending (write_next_request enc b)) = filter connects (pending b)"
  "list_all posts_unset (pending (write_next_request enc b)) = list_all posts_unset (pending b)"
  by (simp_all add: write_next_request_def Let_def split: list.splits option.splits)

lemma run_invariant_write_next_request:
  "run_invariant (write_next_request enc b) = run_invariant b"
  by (simp add: run_invariant_def write_next_request_pending write_next_request_frame)

lemma reachable_run_invariant:
  assumes "reachable enc b"
  shows "run_invariant b"
  using assms
proof (induction rule: reachable.induct)
  case (constructed h p cid)
  show ?case by (simp add: run_invariant_def Broker_new_def all_unset_def)
next
  case (user_call b version key request_packet)
  then show ?case by (simp add: run_invariant_def call_def Let_def)
next
  case (user_wait_for_connect b milliseconds)
  then show ?case
    by (cases "connection_state b")
       (simp_all add: wait_for_connect.simps Let_def run_invariant_def)
next
  case (user_close b)
  then show ?case by (auto simp: run_invariant_def close_def)
next
  case (run_push_request b ops req ops')
  have 1: "run_invariant (b\<lparr>pending := ops @ ops'\<rparr>)"
    and 2: "response_promise req = Unset"
    using run_invariant_completed(1,5) [OF run_push_request.IH run_push_request.hyps(2)]
    by simp_all
  have "run_invariant (b\<lparr>pending := ops @ ops',
      next_correlation_id := next_correlation_id b + 1,
      in_flight := in_flight b
        @ [req\<lparr>header := (header req)\<lparr>correlation_id := next_correlation_id b\<rparr>\<rparr>]\<rparr>)"
    if "\<not> is_closed b"
    using 1 2 that by (auto simp: run_invariant_def all_unset_def is_closed_def)
  with 1 show ?case
    by (simp add: push_request_def Let_def run_invariant_write_next_request is_closed_def)
next
  case (resolve_completes b ops h p ops' ec endpoints)
  note c = run_invariant_completed(2,3,4) [OF resolve_completes.IH resolve_completes.hyps(2)]
  show ?case
    using c resolve_completes.hyps(3)
    by (cases endpoints) (auto simp: handle_resolve_def run_invariant_def close_def)
next
  case (connect_completes b ops e rest ops' ec)
  note c = run_invariant_completed(2,3,4) [OF connect_completes.IH connect_completes.hyps(2)]
  show ?case
    using c
    by (cases rest)
       (auto simp: handle_connect_def Let_def write_next_request_pending
          write_next_request_frame run_invariant_def close_def)
next
  case (write_completes b ops buffers ops' ec bytes_written)
  have 1: "run_invariant (b\<lparr>pending := ops @ ops'\<rparr>)"
    using run_invariant_completed(1) [OF write_completes.IH write_completes.hyps(2)] by simp
  then show ?case
    by (auto simp: handle_write_def Let_def run_invariant_def all_unset_def set_exception_def
        split: list.splits promise.splits)
next
  case (read_header_completes b ops k ops' data ec)
  have "run_invariant (b\<lparr>pending := ops @ ops'\<rparr>)"
    using run_invariant_completed(1) [OF read_header_completes.IH read_header_completes.hyps(2)]
    by simp
  then have "run_invariant (b\<lparr>pending := ops @ ops',
      header_buffer := received data (header_buffer b)\<rparr>)"
    by simp
  then show ?case
    using response_handler_actor_shape by (rule run_invariant_reader)
next
  case (read_response_completes b ops k ops' data ec)
  have "run_invariant (b\<lparr>pending := ops @ ops'\<rparr>)"
    using run_invariant_completed(1)
      [OF read_response_completes.IH read_response_completes.hyps(2)]
    by simp
  then have "run_invariant (b\<lparr>pending := ops @ ops',
      response_buffer := map_option (received data) (response_buffer b)\<rparr>)"
    by simp
  then show ?case
    using response_handler_actor_shape by (rule run_invariant_reader)
next
  case (run_response_handler_actor b ops ops')
  have "run_invariant (b\<lparr>pending := ops @ ops'\<rparr>)"
    using run_invariant_completed(1)
      [OF run_response_handler_actor.IH run_response_handler_actor.hyps(2)]
    by simp
  then show ?case
    using response_handler_actor_shape by (rule run_invariant_reader)
qed

text \<open>
  In a run, every request in the queue of a connected broker still has its promise unset:
  the reader finds the head as the theorems about its steps assume it.
\<close>

lemma connected_promises_unset:
  assumes "reachable enc b" and "is_connected b" and "r \<in> set (in_flight b)"
  shows "response_promise r = Unset"
  using reachable_run_invariant [OF assms(1)] assms(2,3)
  by (auto simp: run_invariant_def is_connected_def all_unset_def list_all_iff)

text \<open>The same holds as long as the broker has not been closed.\<close>

lemma open_promises_unset:
  assumes "reachable enc b" and "\<not> is_closed b" and "r \<in> set (in_flight b)"
  shows "response_promise r = Unset"
  using reachable_run_invariant [OF assms(1)] assms(2,3)
  by (auto simp: run_invariant_def is_closed_def all_unset_def list_all_iff)

section \<open>The handlers, one at a time\<close>

text \<open>
  C1.  A response with an empty body: the wire bytes \<^verbatim>\<open>00 00 00 04 00 00 00 01\<close> answering
  the request with correlation id 1, in a run of the broker.  The header read allocates a
  buffer of 0 bytes and \<^verbatim>\<open>&response_buffer_->at(0)\<close> throws \<^verbatim>\<open>std::out_of_range\<close>: no body read
  is issued (nothing is pending), nothing has been resolved, the head's promise stays unset
  and the head stays in the queue.
\<close>

theorem empty_body_response_throws:
  "response_handler_actor 0 8 (header_arrives (be32 (4 + 0) @ be32 1)) =
     Throws out_of_range
       ((header_arrives (be32 (4 + 0) @ be32 1))
          \<lparr>response_handler_state := RespHandlerStateReadResp,
           response_buffer := Some []\<rparr>)
   \<and> reachable encode_RequestHeader
        (state_of (response_handler_actor 0 8 (header_arrives (be32 (4 + 0) @ be32 1))))
   \<and> in_flight (state_of (response_handler_actor 0 8 (header_arrives (be32 (4 + 0) @ be32 1))))
       = [(enqueued 1)\<lparr>sent := True\<rparr>]
   \<and> response_promise ((enqueued 1)\<lparr>sent := True\<rparr>) = Unset
   \<and> pending (state_of (response_handler_actor 0 8 (header_arrives (be32 (4 + 0) @ be32 1)))) = []
   \<and> fulfilled (state_of (response_handler_actor 0 8 (header_arrives (be32 (4 + 0) @ be32 1)))) = []"
proof -
  have "response_handler_actor 0 8 (header_arrives (be32 (4 + 0) @ be32 1)) =
     Throws out_of_range
       ((header_arrives (be32 (4 + 0) @ be32 1))
          \<lparr>response_handler_state := RespHandlerStateReadResp,
           response_buffer := Some []\<rparr>)"
    by (subst response_handler_actor.simps)
       (simp add: example_defs decode_response_header [of 4 1, simplified] ok_def Let_def
          is_connected_def)
  moreover have "reachable encode_RequestHeader
        (state_of (response_handler_actor 0 8 (header_arrives (be32 (4 + 0) @ be32 1))))"
    by (rule header_arrives_outcome_reachable) simp
  ultimately show ?thesis by (simp add: example_defs)
qed

text \<open>
  C2.  In a run of the broker, the reader completes the response of a sent head while the
  next request is still unsent: the head is resolved and popped, the reader is idle, and
  nothing is pending: no write of the next request has been issued, and no read.
\<close>

theorem unsent_successor_is_not_written:
  "response_handler_actor 0 1
      (body_arrives [(enqueued 1)\<lparr>sent := True\<rparr>, enqueued 2] (be32 5 @ be32 1) [42]) =
     Returns ((body_arrives [(enqueued 1)\<lparr>sent := True\<rparr>, enqueued 2] (be32 5 @ be32 1) [42])
       \<lparr>response_handler_state := RespHandlerStateIdle,
        in_flight := [enqueued 2],
        fulfilled := [(enqueued 1)\<lparr>sent := True,
                         response_promise := Value (PacketDecoder_of [42])\<rparr>]\<rparr>)
   \<and> reachable encode_RequestHeader (state_of (response_handler_actor 0 1
         (body_arrives [(enqueued 1)\<lparr>sent := True\<rparr>, enqueued 2] (be32 5 @ be32 1) [42])))
   \<and> sent (enqueued 2) = False
   \<and> pending (state_of (response_handler_actor 0 1
         (body_arrives [(enqueued 1)\<lparr>sent := True\<rparr>, enqueued 2] (be32 5 @ be32 1) [42]))) = []"
proof -
  have "response_handler_actor 0 1
      (body_arrives [(enqueued 1)\<lparr>sent := True\<rparr>, enqueued 2] (be32 5 @ be32 1) [42]) =
     Returns ((body_arrives [(enqueued 1)\<lparr>sent := True\<rparr>, enqueued 2] (be32 5 @ be32 1) [42])
       \<lparr>response_handler_state := RespHandlerStateIdle,
        in_flight := [enqueued 2],
        fulfilled := [(enqueued 1)\<lparr>sent := True,
                         response_promise := Value (PacketDecoder_of [42])\<rparr>]\<rparr>)"
    by (subst response_handler_actor.simps)
       (simp add: example_defs Let_def is_connected_def set_value_def)
  then show ?thesis
    using unsent_successor_outcome_reachable by (simp add: example_defs)
qed

text \<open>The other half of C2 holds: a sent successor makes the reader start the next header read.\<close>

lemma sent_successor_is_read:
  assumes "is_connected b" and "in_flight b = req # nxt # rest"
    and "response_promise req = Unset" and "sent nxt"
    and "response_handler_state b = RespHandlerStateReadResp"
    and "response_buffer b = Some payload" and "length payload \<le> n"
    and "header_buffer b \<noteq> []"
  shows "response_handler_actor 0 n b =
     Returns (b\<lparr>response_handler_state := RespHandlerStateReadHeader,
                in_flight := nxt # rest,
                fulfilled := fulfilled b
                  @ [req\<lparr>response_promise := Value (PacketDecoder_of payload)\<rparr>],
                pending := pending b @ [async_read_header (length (header_buffer b))]\<rparr>)"
  using assms
  by (subst read_response_ok [where req = req and rest = "nxt # rest" and payload = payload])
     (simp_all add: idle_step is_connected_def)

text \<open>
  C3.  \<^verbatim>\<open>wait_for_connect\<close> by connection state.  Connected: \<open>no_error\<close>, at once (the broker
  is untouched and the other threads are not consulted).  Closed: \<open>network_fail\<close>, at once.
  Connecting: the caller waits, and the result follows the state seen when the wait ends:
  \<open>network_timeout\<close> if still connecting, \<open>no_error\<close> if connected, \<open>network_fail\<close> if
  closed.  Init: the state becomes \<open>StateConnecting\<close>, the resolve of the broker's host and
  port is started, and the call then behaves as \<^verbatim>\<open>wait_for_connect\<close> on that state; the state
  is never \<open>StateInit\<close> afterwards.
\<close>

theorem wait_for_connect_by_state:
  "(connection_state b = StateConnected \<longrightarrow>
      wait_for_connect ms relock wake b = (no_error, b))
   \<and> (connection_state b = StateClosed \<longrightarrow>
      wait_for_connect ms relock wake b = (network_fail, b))
   \<and> (connection_state b = StateConnecting \<longrightarrow>
      wait_for_connect ms relock wake b =
        (case wake of
           Undisturbed \<Rightarrow> network_timeout
         | Connected_meanwhile \<Rightarrow> no_error
         | Closed_meanwhile \<Rightarrow> network_fail,
         other_threads wake b))
   \<and> (connection_state b = StateInit \<longrightarrow>
      wait_for_connect ms relock wake b =
        wait_for_connect ms relock wake
          (other_threads relock
            (b\<lparr>connection_state := StateConnecting,
               pending := pending b
                 @ [async_resolve (host (identity b)) (port (identity b))]\<rparr>))
      \<and> wait_for_connect ms Undisturbed wake b =
        (case wake of
           Undisturbed \<Rightarrow> network_timeout
         | Connected_meanwhile \<Rightarrow> no_error
         | Closed_meanwhile \<Rightarrow> network_fail,
         other_threads wake
           (b\<lparr>connection_state := StateConnecting,
              pending := pending b
                @ [async_resolve (host (identity b)) (port (identity b))]\<rparr>)))
   \<and> connection_state (snd (wait_for_connect ms relock wake b)) \<noteq> StateInit"
proof -
  have connecting: "wait_for_connect ms rl wake c =
        (case wake of
           Undisturbed \<Rightarrow> network_timeout
         | Connected_meanwhile \<Rightarrow> no_error
         | Closed_meanwhile \<Rightarrow> network_fail,
         other_threads wake c)"
    if "connection_state c = StateConnecting" for c rl
    using that
    by (subst wait_for_connect.simps) (cases wake; simp add: close_def)
  have not_init: "connection_state (snd (wait_for_connect ms relock wake c)) \<noteq> StateInit"
    if "connection_state c \<noteq> StateInit" for c
    using that
    by (subst wait_for_connect.simps)
       (cases "connection_state c"; cases wake; simp add: close_def)
  have init: "wait_for_connect ms rl wake b =
        wait_for_connect ms rl wake
          (other_threads rl
            (b\<lparr>connection_state := StateConnecting,
               pending := pending b
                 @ [async_resolve (host (identity b)) (port (identity b))]\<rparr>))"
    if "connection_state b = StateInit" for rl
    using that by (subst wait_for_connect.simps) (simp add: Let_def)
  have after: "connection_state (other_threads relock
            (b\<lparr>connection_state := StateConnecting,
               pending := pending b
                 @ [async_resolve (host (identity b)) (port (identity b))]\<rparr>)) \<noteq> StateInit"
    by (cases relock) (simp_all add: close_def)
  show ?thesis
  proof (cases "connection_state b")
    case StateInit
    then show ?thesis
      using init [of relock] init [of Undisturbed] not_init [OF after]
      by (simp add: connecting)
  next
    case StateConnecting
    then show ?thesis using not_init [of b] by (simp add: connecting)
  next
    case StateConnected
    then show ?thesis by (subst (1 2) wait_for_connect.simps) simp
  next
    case StateClosed
    then show ?thesis by (subst (1 2) wait_for_connect.simps) simp
  qed
qed

theorem wait_for_connect_by_state_witness:
  "wait_for_connect 50 Undisturbed Undisturbed connected_broker = (no_error, connected_broker)
   \<and> wait_for_connect 50 Undisturbed Undisturbed (close connected_broker)
       = (network_fail, close connected_broker)
   \<and> wait_for_connect 50 Undisturbed Undisturbed
        ((Broker_new ''kafka'' 9092 ''c1'')\<lparr>connection_state := StateConnecting\<rparr>)
       = (network_timeout, (Broker_new ''kafka'' 9092 ''c1'')\<lparr>connection_state := StateConnecting\<rparr>)
   \<and> wait_for_connect 50 Undisturbed Closed_meanwhile
        ((Broker_new ''kafka'' 9092 ''c1'')\<lparr>connection_state := StateConnecting\<rparr>)
       = (network_fail, (Broker_new ''kafka'' 9092 ''c1'')\<lparr>connection_state := StateClosed\<rparr>)
   \<and> wait_for_connect 50 Undisturbed Connected_meanwhile (Broker_new ''kafka'' 9092 ''c1'')
       = (no_error, (Broker_new ''kafka'' 9092 ''c1'')
            \<lparr>connection_state := StateConnected, pending := [async_resolve ''kafka'' 9092]\<rparr>)"
proof -
  have "connection_state connected_broker = StateConnected"
    by (simp add: example_defs)
  then have 1: "wait_for_connect 50 Undisturbed Undisturbed connected_broker
      = (no_error, connected_broker)"
    using wait_for_connect_by_state [of connected_broker 50 Undisturbed Undisturbed] by simp
  have "connection_state (close connected_broker) = StateClosed"
    by (simp add: close_def)
  then have 2: "wait_for_connect 50 Undisturbed Undisturbed (close connected_broker)
      = (network_fail, close connected_broker)"
    using wait_for_connect_by_state [of "close connected_broker" 50 Undisturbed Undisturbed]
    by simp
  have 3: "wait_for_connect 50 Undisturbed Undisturbed
        ((Broker_new ''kafka'' 9092 ''c1'')\<lparr>connection_state := StateConnecting\<rparr>)
       = (network_timeout, (Broker_new ''kafka'' 9092 ''c1'')\<lparr>connection_state := StateConnecting\<rparr>)"
    using wait_for_connect_by_state
      [of "(Broker_new ''kafka'' 9092 ''c1'')\<lparr>connection_state := StateConnecting\<rparr>" 50
          Undisturbed Undisturbed]
    by simp
  have 4: "wait_for_connect 50 Undisturbed Closed_meanwhile
        ((Broker_new ''kafka'' 9092 ''c1'')\<lparr>connection_state := StateConnecting\<rparr>)
       = (network_fail, (Broker_new ''kafka'' 9092 ''c1'')\<lparr>connection_state := StateClosed\<rparr>)"
    using wait_for_connect_by_state
      [of "(Broker_new ''kafka'' 9092 ''c1'')\<lparr>connection_state := StateConnecting\<rparr>" 50
          Undisturbed Closed_meanwhile]
    by (simp add: close_def Broker_new_def)
  have init: "connection_state (Broker_new ''kafka'' 9092 ''c1'') = StateInit"
    by (simp add: Broker_new_def)
  have "wait_for_connect 50 Undisturbed Connected_meanwhile (Broker_new ''kafka'' 9092 ''c1'')
       = (no_error, other_threads Connected_meanwhile
            ((Broker_new ''kafka'' 9092 ''c1'')\<lparr>connection_state := StateConnecting,
               pending := pending (Broker_new ''kafka'' 9092 ''c1'')
                 @ [async_resolve (host (identity (Broker_new ''kafka'' 9092 ''c1'')))
                      (port (identity (Broker_new ''kafka'' 9092 ''c1'')))]\<rparr>))"
    using wait_for_connect_by_state
      [of "Broker_new ''kafka'' 9092 ''c1''" 50 Undisturbed Connected_meanwhile,
        THEN conjunct2, THEN conjunct2, THEN conjunct2, THEN conjunct1, THEN mp, OF init,
        THEN conjunct2]
    by (simp only: interleaving.case)
  then have 5: "wait_for_connect 50 Undisturbed Connected_meanwhile (Broker_new ''kafka'' 9092 ''c1'')
       = (no_error, (Broker_new ''kafka'' 9092 ''c1'')
            \<lparr>connection_state := StateConnected, pending := [async_resolve ''kafka'' 9092]\<rparr>)"
    by (simp add: Broker_new_def)
  from 1 2 3 4 5 show ?thesis by blast
qed

text \<open>
  C4.  A broker whose client id is too long to encode is connected and gets a call.  When
  \<^verbatim>\<open>push_request\<close> runs, the request is enqueued with id 1 and the writer finds that the
  header does not encode: it returns without a write.  Nothing is pending, nothing has been
  resolved, and the request sits at the head with its promise unset; running the writer
  again changes nothing.
\<close>

theorem encode_failure_leaves_promise_unset:
  "encode_RequestHeader
      ((header (request_of long_client_id))\<lparr>correlation_id := 1\<rparr>) = None
   \<and> push_request encode_RequestHeader (request_of long_client_id)
        (connected_broker_of long_client_id)
     = (connected_broker_of long_client_id)
         \<lparr>next_correlation_id := 2,
          in_flight := [(request_of long_client_id)
             \<lparr>header := (header (request_of long_client_id))\<lparr>correlation_id := 1\<rparr>\<rparr>]\<rparr>
   \<and> reachable encode_RequestHeader
        (push_request encode_RequestHeader (request_of long_client_id)
           (connected_broker_of long_client_id))
   \<and> response_promise ((request_of long_client_id)
             \<lparr>header := (header (request_of long_client_id))\<lparr>correlation_id := 1\<rparr>\<rparr>) = Unset
   \<and> pending (push_request encode_RequestHeader (request_of long_client_id)
        (connected_broker_of long_client_id)) = []
   \<and> fulfilled (push_request encode_RequestHeader (request_of long_client_id)
        (connected_broker_of long_client_id)) = []
   \<and> write_next_request encode_RequestHeader
        (push_request encode_RequestHeader (request_of long_client_id)
           (connected_broker_of long_client_id))
     = push_request encode_RequestHeader (request_of long_client_id)
        (connected_broker_of long_client_id)"
proof -
  have enc: "encode_RequestHeader
      ((header (request_of long_client_id))\<lparr>correlation_id := 1\<rparr>) = None"
    by (simp add: encode_RequestHeader_def request_of_def long_client_id_def)
  have push: "push_request encode_RequestHeader (request_of long_client_id)
        (connected_broker_of long_client_id)
     = (connected_broker_of long_client_id)
         \<lparr>next_correlation_id := 2,
          in_flight := [(request_of long_client_id)
             \<lparr>header := (header (request_of long_client_id))\<lparr>correlation_id := 1\<rparr>\<rparr>]\<rparr>"
    using enc
    by (simp add: push_request_def write_next_request_def Let_def is_closed_def is_connected_def
        connected_broker_of_def Broker_new_def request_of_def)
  have again: "write_next_request encode_RequestHeader
      ((connected_broker_of long_client_id)
         \<lparr>next_correlation_id := 2,
          in_flight := [(request_of long_client_id)
             \<lparr>header := (header (request_of long_client_id))\<lparr>correlation_id := 1\<rparr>\<rparr>]\<rparr>)
     = (connected_broker_of long_client_id)
         \<lparr>next_correlation_id := 2,
          in_flight := [(request_of long_client_id)
             \<lparr>header := (header (request_of long_client_id))\<lparr>correlation_id := 1\<rparr>\<rparr>]\<rparr>"
    using enc by (simp add: write_next_request_def request_of_def)
  have "reachable encode_RequestHeader
        (push_request encode_RequestHeader (request_of long_client_id)
           (connected_broker_of long_client_id))"
    by (rule reachable_after_push)
  then show ?thesis
    unfolding push using enc again
    by (simp add: connected_broker_of_def Broker_new_def request_of_def)
qed

text \<open>Whatever the encoder, a head whose header does not encode is left as it is.\<close>

lemma encode_failure_is_silent:
  "in_flight b = req # rest \<Longrightarrow> enc (header req) = None \<Longrightarrow> write_next_request enc b = b"
  by (simp add: write_next_request_def)




text \<open>
  C6.  In the \<open>ReadHeader\<close> step, whenever the header decodes and its correlation id differs
  from the head's, the head's promise is failed with the runtime error
  \<^verbatim>\<open>Correlation ID mismatch\<close> and the connection is closed; the head stays at the front of the
  queue and the entries behind it are as they were.
\<close>

theorem correlation_mismatch_fails_head_and_closes:
  assumes "is_connected b" and "in_flight b = req # rest" and "response_promise req = Unset"
    and "response_handler_state b = RespHandlerStateReadHeader"
    and "io_int32 (PacketDecoder_of (header_buffer b)) = (response_len, pd1)"
    and "io_ResponseHeader pd1 = (h, pd)" and "ok pd"
    and "resp_correlation_id h \<noteq> correlation_id (header req)"
  shows "response_handler_actor 0 n b =
           Returns (b\<lparr>response_handler_state := RespHandlerStateReadResp,
                      in_flight := req\<lparr>response_promise :=
                          Exception (runtime_error ''Correlation ID mismatch'')\<rparr> # rest,
                      socket_open := False,
                      connection_state := StateClosed\<rparr>)"
  using assms
  by (subst response_handler_actor.simps)
     (simp add: fail_head_and_close_def Let_def set_exception_def close_def is_connected_def)

theorem correlation_mismatch_fails_head_and_closes_witness:
  "is_connected (header_arrives (be32 4 @ be32 42))
   \<and> io_int32 (PacketDecoder_of (header_buffer (header_arrives (be32 4 @ be32 42))))
       = (4, \<lparr>buff = be32 4 @ be32 42, cursor = 4, err = False\<rparr>)
   \<and> io_ResponseHeader \<lparr>buff = be32 4 @ be32 42, cursor = 4, err = False\<rparr>
       = (\<lparr>resp_correlation_id = 42\<rparr>, \<lparr>buff = be32 4 @ be32 42, cursor = 8, err = False\<rparr>)
   \<and> response_handler_actor 0 8 (header_arrives (be32 4 @ be32 42)) =
       Returns ((header_arrives (be32 4 @ be32 42))
         \<lparr>response_handler_state := RespHandlerStateReadResp,
          in_flight := [(enqueued 1)\<lparr>sent := True, response_promise :=
                          Exception (runtime_error ''Correlation ID mismatch'')\<rparr>],
          socket_open := False,
          connection_state := StateClosed\<rparr>)"
proof -
  have hb: "header_buffer (header_arrives (be32 4 @ be32 42)) = be32 4 @ be32 42"
    by (simp add: header_arrives_def)
  have 1: "io_int32 (PacketDecoder_of (header_buffer (header_arrives (be32 4 @ be32 42))))
       = (4, \<lparr>buff = be32 4 @ be32 42, cursor = 4, err = False\<rparr>)"
    unfolding hb by (rule decode_response_header)
  have 2: "io_ResponseHeader \<lparr>buff = be32 4 @ be32 42, cursor = 4, err = False\<rparr>
       = (\<lparr>resp_correlation_id = 42\<rparr>, \<lparr>buff = be32 4 @ be32 42, cursor = 8, err = False\<rparr>)"
    by (rule decode_response_header)
  have 3: "is_connected (header_arrives (be32 4 @ be32 42))"
    "in_flight (header_arrives (be32 4 @ be32 42)) = [(enqueued 1)\<lparr>sent := True\<rparr>]"
    "response_promise ((enqueued 1)\<lparr>sent := True\<rparr>) = Unset"
    "response_handler_state (header_arrives (be32 4 @ be32 42)) = RespHandlerStateReadHeader"
    "ok \<lparr>buff = be32 4 @ be32 42, cursor = 8, err = False\<rparr>"
    "resp_correlation_id \<lparr>resp_correlation_id = 42\<rparr>
       \<noteq> correlation_id (header ((enqueued 1)\<lparr>sent := True\<rparr>))"
    by (simp_all add: example_defs is_connected_def ok_def)
  show ?thesis
    using correlation_mismatch_fails_head_and_closes [OF 3(1,2,3,4) 1 2 3(5,6), of 8] 1 2 3(1)
    by simp
qed

text \<open>
  C7, as the code has it.  In the \<open>ReadResp\<close> step on a connected broker, for a completion of
  the body read (which transfers at most the \<open>length rb\<close> bytes asked for): one that carries
  an error code fails the head with \<^verbatim>\<open>system_error(ec)\<close> and closes; one without an error
  code whose byte count is not \<open>length rb\<close> fails the head with the runtime error
  \<^verbatim>\<open>Not enough bytes read\<close> and closes; and the head is resolved with a decoder over the
  buffer, and popped, only when the completion carries no error code and its byte count
  is \<open>length rb\<close>, and always then.
\<close>

theorem read_body_completion:
  assumes "is_connected b" and "in_flight b = req # rest" and "response_promise req = Unset"
    and "response_handler_state b = RespHandlerStateReadResp"
    and "response_buffer b = Some rb" and "n \<le> length rb"
  shows "(ec \<noteq> 0 \<longrightarrow>
           response_handler_actor ec n b =
             Returns (b\<lparr>in_flight := req\<lparr>response_promise := Exception (system_error ec)\<rparr> # rest,
                        socket_open := False, connection_state := StateClosed\<rparr>))
       \<and> (ec = 0 \<and> n \<noteq> length rb \<longrightarrow>
           response_handler_actor ec n b =
             Returns (b\<lparr>response_handler_state := RespHandlerStateIdle,
                        in_flight := req\<lparr>response_promise :=
                           Exception (runtime_error ''Not enough bytes read'')\<rparr> # rest,
                        socket_open := False, connection_state := StateClosed\<rparr>))
       \<and> (ec = 0 \<and> n = length rb \<longrightarrow>
           fulfilled (state_of (response_handler_actor ec n b)) =
             fulfilled b @ [req\<lparr>response_promise := Value (PacketDecoder_of rb)\<rparr>]
           \<and> in_flight (state_of (response_handler_actor ec n b)) = rest
           \<and> connection_state (state_of (response_handler_actor ec n b)) = StateConnected)
       \<and> (fulfilled (state_of (response_handler_actor ec n b)) \<noteq> fulfilled b
            \<longrightarrow> ec = 0 \<and> n = length rb)"
proof -
  have err: "response_handler_actor ec n b =
             Returns (b\<lparr>in_flight := req\<lparr>response_promise := Exception (system_error ec)\<rparr> # rest,
                        socket_open := False, connection_state := StateClosed\<rparr>)"
    if "ec \<noteq> 0"
    using that assms
    by (subst response_handler_actor.simps)
       (simp add: fail_head_and_close_def set_exception_def close_def is_connected_def)
  have short: "response_handler_actor 0 n b =
             Returns (b\<lparr>response_handler_state := RespHandlerStateIdle,
                        in_flight := req\<lparr>response_promise :=
                           Exception (runtime_error ''Not enough bytes read'')\<rparr> # rest,
                        socket_open := False, connection_state := StateClosed\<rparr>)"
    if "n < length rb"
    using that assms
    by (subst response_handler_actor.simps)
       (simp add: fail_head_and_close_def set_exception_def close_def is_connected_def Let_def)
  show ?thesis
  proof (cases "ec = 0")
    case False
    then show ?thesis using err by simp
  next
    case True
    show ?thesis
    proof (cases "n < length rb")
      case True
      with \<open>ec = 0\<close> show ?thesis using short by simp
    next
      case False
      with assms(6) have "n = length rb" by simp
      with \<open>ec = 0\<close> show ?thesis
        using read_response_fulfils [OF assms(1-5), of n] by simp
    qed
  qed
qed

theorem read_body_completion_witness:
  "response_handler_actor 104 3 (body_arrives [(enqueued 1)\<lparr>sent := True\<rparr>] (be32 8 @ be32 1) [1, 2, 3, 0]) =
     Returns ((body_arrives [(enqueued 1)\<lparr>sent := True\<rparr>] (be32 8 @ be32 1) [1, 2, 3, 0])
       \<lparr>in_flight := [(enqueued 1)\<lparr>sent := True,
                         response_promise := Exception (system_error 104)\<rparr>],
        socket_open := False, connection_state := StateClosed\<rparr>)
   \<and> response_handler_actor 0 3 (body_arrives [(enqueued 1)\<lparr>sent := True\<rparr>] (be32 8 @ be32 1) [1, 2, 3, 0]) =
     Returns ((body_arrives [(enqueued 1)\<lparr>sent := True\<rparr>] (be32 8 @ be32 1) [1, 2, 3, 0])
       \<lparr>response_handler_state := RespHandlerStateIdle,
        in_flight := [(enqueued 1)\<lparr>sent := True,
                         response_promise := Exception (runtime_error ''Not enough bytes read'')\<rparr>],
        socket_open := False, connection_state := StateClosed\<rparr>)
   \<and> fulfilled (state_of
        (response_handler_actor 0 4 (body_arrives [(enqueued 1)\<lparr>sent := True\<rparr>] (be32 8 @ be32 1) [1, 2, 3, 4])))
      = [(enqueued 1)\<lparr>sent := True, response_promise := Value (PacketDecoder_of [1, 2, 3, 4])\<rparr>]
   \<and> in_flight (state_of
        (response_handler_actor 0 4 (body_arrives [(enqueued 1)\<lparr>sent := True\<rparr>] (be32 8 @ be32 1) [1, 2, 3, 4])))
      = []"
  using read_body_completion
      [of "body_arrives [(enqueued 1)\<lparr>sent := True\<rparr>] (be32 8 @ be32 1) [1, 2, 3, 0]"
          "(enqueued 1)\<lparr>sent := True\<rparr>" "[]" "[1, 2, 3, 0]" 3 104]
    read_body_completion
      [of "body_arrives [(enqueued 1)\<lparr>sent := True\<rparr>] (be32 8 @ be32 1) [1, 2, 3, 0]"
          "(enqueued 1)\<lparr>sent := True\<rparr>" "[]" "[1, 2, 3, 0]" 3 0]
    read_body_completion
      [of "body_arrives [(enqueued 1)\<lparr>sent := True\<rparr>] (be32 8 @ be32 1) [1, 2, 3, 4]"
          "(enqueued 1)\<lparr>sent := True\<rparr>" "[]" "[1, 2, 3, 4]" 4 0]
  by (simp add: example_defs is_connected_def)

text \<open>
  C7 as stated fails twice, each time in a run of the broker whose body read of 4 bytes
  completes with 3 bytes and an error code.  On the connected broker (error 104) the head is
  failed with the system error, not with \<^verbatim>\<open>Not enough bytes read\<close>.  On a broker closed while
  the read was pending (error 125) the completion is discarded: the head's promise stays
  unset.
\<close>

theorem read_body_completion_counterexample:
  "reachable encode_RequestHeader (state_of (response_handler_actor 104 3
      (body_arrives [(enqueued 1)\<lparr>sent := True\<rparr>] (be32 8 @ be32 1) [1, 2, 3, 0])))
   \<and> (3::nat) \<noteq> length [1, 2, 3, 0 :: byte]
   \<and> response_promise (hd (in_flight (state_of (response_handler_actor 104 3
        (body_arrives [(enqueued 1)\<lparr>sent := True\<rparr>] (be32 8 @ be32 1) [1, 2, 3, 0])))))
     = Exception (system_error 104)
   \<and> Exception (system_error 104) \<noteq> Exception (runtime_error ''Not enough bytes read'')
   \<and> reachable encode_RequestHeader (close body_read_pending)
   \<and> pending (close body_read_pending) = [async_read_response 4]
   \<and> (close body_read_pending)
        \<lparr>pending := [],
         response_buffer := map_option (received [1, 2, 3]) (response_buffer (close body_read_pending))\<rparr>
       = close (body_arrives [(enqueued 1)\<lparr>sent := True\<rparr>] (be32 8 @ be32 1) [1, 2, 3, 0])
   \<and> response_handler_state
        (close (body_arrives [(enqueued 1)\<lparr>sent := True\<rparr>] (be32 8 @ be32 1) [1, 2, 3, 0]))
       = RespHandlerStateReadResp
   \<and> response_handler_actor 125 3
        (close (body_arrives [(enqueued 1)\<lparr>sent := True\<rparr>] (be32 8 @ be32 1) [1, 2, 3, 0]))
       = Returns (close (body_arrives [(enqueued 1)\<lparr>sent := True\<rparr>] (be32 8 @ be32 1) [1, 2, 3, 0]))
   \<and> response_promise (hd (in_flight
        (close (body_arrives [(enqueued 1)\<lparr>sent := True\<rparr>] (be32 8 @ be32 1) [1, 2, 3, 0]))))
       = Unset"
proof -
  have "response_handler_actor 104 3
      (body_arrives [(enqueued 1)\<lparr>sent := True\<rparr>] (be32 8 @ be32 1) [1, 2, 3, 0])
    = Returns ((body_arrives [(enqueued 1)\<lparr>sent := True\<rparr>] (be32 8 @ be32 1) [1, 2, 3, 0])
       \<lparr>in_flight := [(enqueued 1)\<lparr>sent := True,
                         response_promise := Exception (system_error 104)\<rparr>],
        socket_open := False, connection_state := StateClosed\<rparr>)"
    by (subst response_handler_actor.simps)
       (simp add: example_defs fail_head_and_close_def set_exception_def close_def
          is_connected_def)
  then have a: "response_promise (hd (in_flight (state_of (response_handler_actor 104 3
        (body_arrives [(enqueued 1)\<lparr>sent := True\<rparr>] (be32 8 @ be32 1) [1, 2, 3, 0])))))
     = Exception (system_error 104)"
    by simp
  have b: "response_handler_actor 125 3
        (close (body_arrives [(enqueued 1)\<lparr>sent := True\<rparr>] (be32 8 @ be32 1) [1, 2, 3, 0]))
       = Returns (close (body_arrives [(enqueued 1)\<lparr>sent := True\<rparr>] (be32 8 @ be32 1) [1, 2, 3, 0]))"
    by (subst response_handler_actor.simps)
       (simp add: example_defs close_def is_connected_def)
  have c: "response_handler_state
        (close (body_arrives [(enqueued 1)\<lparr>sent := True\<rparr>] (be32 8 @ be32 1) [1, 2, 3, 0]))
       = RespHandlerStateReadResp"
    "response_promise (hd (in_flight
        (close (body_arrives [(enqueued 1)\<lparr>sent := True\<rparr>] (be32 8 @ be32 1) [1, 2, 3, 0]))))
       = Unset"
    by (simp_all add: example_defs close_def)
  show ?thesis
    using short_body_outcome_reachable a b c reachable_closed_body_read closed_body_arrives
    by simp
qed

text \<open>
  C8.  \<^verbatim>\<open>push_request\<close> on a closed broker changes nothing: the request is dropped with its
  promise unset, and no id is assigned.  Otherwise the request gets the counter's value as
  its correlation id, the counter goes up by one, the request is appended at the tail, and
  the writer runs on the result exactly when the broker is connected.
\<close>

theorem push_request_effect:
  "(is_closed b \<longrightarrow> push_request enc req b = b)
   \<and> (\<not> is_closed b \<longrightarrow>
        push_request enc req b =
          (if is_connected b
           then write_next_request enc
                  (b\<lparr>next_correlation_id := next_correlation_id b + 1,
                     in_flight := in_flight b
                       @ [req\<lparr>header := (header req)\<lparr>correlation_id := next_correlation_id b\<rparr>\<rparr>]\<rparr>)
           else b\<lparr>next_correlation_id := next_correlation_id b + 1,
                  in_flight := in_flight b
                    @ [req\<lparr>header := (header req)\<lparr>correlation_id := next_correlation_id b\<rparr>\<rparr>]\<rparr>)
        \<and> next_correlation_id (push_request enc req b) = next_correlation_id b + 1
        \<and> in_flight (push_request enc req b) =
            in_flight b @ [req\<lparr>header := (header req)\<lparr>correlation_id := next_correlation_id b\<rparr>\<rparr>])"
  by (simp add: push_request_def Let_def is_connected_def is_closed_def write_next_request_frame)

theorem push_request_effect_witness:
  "is_closed (close connected_broker)
   \<and> push_request encode_RequestHeader scenario_request (close connected_broker)
       = close connected_broker
   \<and> \<not> is_closed connected_broker
   \<and> push_request encode_RequestHeader scenario_request connected_broker
       = connected_broker\<lparr>next_correlation_id := 2, in_flight := [enqueued 1],
           pending := [async_write [[0,0,0,12, 0,18, 0,0, 0,0,0,1, 0,2, 99,49], []]]\<rparr>
   \<and> push_request encode_RequestHeader scenario_request (Broker_new ''kafka'' 9092 ''c1'')
       = (Broker_new ''kafka'' 9092 ''c1'')\<lparr>next_correlation_id := 2, in_flight := [enqueued 1]\<rparr>"
  using push_request_effect [of "close connected_broker" encode_RequestHeader scenario_request]
    push_request_effect [of connected_broker encode_RequestHeader scenario_request]
    push_request_effect [of "Broker_new ''kafka'' 9092 ''c1''" encode_RequestHeader scenario_request]
  by (simp add: example_defs close_def is_closed_def is_connected_def write_next_request_def
        encode_RequestHeader_def get_as_buffer_sequence_head_def be16_def be32_def)

text \<open>
  C10.  When the connection is not connected or the queue is empty, \<^verbatim>\<open>response_handler_actor\<close>
  returns at once for any completion, error or not: the broker is exactly as before, so no
  promise is touched and no read is issued.
\<close>

theorem response_handler_actor_discards:
  "\<not> is_connected b \<or> in_flight b = [] \<Longrightarrow> response_handler_actor ec n b = Returns b"
  by (subst response_handler_actor.simps) simp

theorem response_handler_actor_discards_witness:
  "\<not> is_connected (close (header_arrives (be32 4 @ be32 1)))
   \<and> response_handler_actor 125 0 (close (header_arrives (be32 4 @ be32 1)))
       = Returns (close (header_arrives (be32 4 @ be32 1)))
   \<and> in_flight connected_broker = []
   \<and> response_handler_actor 0 8 connected_broker = Returns connected_broker"
  using response_handler_actor_discards [of "close (header_arrives (be32 4 @ be32 1))" 125 0]
    response_handler_actor_discards [of connected_broker 0 8]
  by (simp add: example_defs close_def is_connected_def)

section \<open>Correlation ids over every run\<close>

subsection \<open>What each operation does to the counter and to the ids in the queue\<close>

lemma queue_ids_simps [simp]:
  "queue_ids (b\<lparr>pending := ps\<rparr>) = queue_ids b"
  "queue_ids (b\<lparr>header_buffer := hb\<rparr>) = queue_ids b"
  "queue_ids (b\<lparr>response_buffer := rb\<rparr>) = queue_ids b"
  "queue_ids (b\<lparr>response_handler_state := rs\<rparr>) = queue_ids b"
  "queue_ids (b\<lparr>connection_state := cs\<rparr>) = queue_ids b"
  "queue_ids (b\<lparr>socket_open := so\<rparr>) = queue_ids b"
  "queue_ids (b\<lparr>fulfilled := fs\<rparr>) = queue_ids b"
  "queue_ids (b\<lparr>next_correlation_id := c\<rparr>) = queue_ids b"
  "queue_ids (close b) = queue_ids b"
  "queue_ids (write_next_request enc b) = queue_ids b"
  by (simp_all add: queue_ids_def close_def write_next_request_frame)

lemma counter_simps [simp]:
  "next_correlation_id (close b) = next_correlation_id b"
  "next_correlation_id (write_next_request enc b) = next_correlation_id b"
  by (simp_all add: close_def write_next_request_frame)

lemma call_ids [simp]:
  "queue_ids (call v k pkt b) = queue_ids b"
  "next_correlation_id (call v k pkt b) = next_correlation_id b"
  by (simp_all add: call_def Let_def)

lemma wait_for_connect_ids [simp]:
  "queue_ids (snd (wait_for_connect ms rl wk b)) = queue_ids b"
  "next_correlation_id (snd (wait_for_connect ms rl wk b)) = next_correlation_id b"
proof -
  have other: "queue_ids (other_threads i c) = queue_ids c"
    "next_correlation_id (other_threads i c) = next_correlation_id c" for i c
    by (cases i; simp)+
  have connecting: "queue_ids (snd (wait_for_connect ms rl wk c)) = queue_ids c
      \<and> next_correlation_id (snd (wait_for_connect ms rl wk c)) = next_correlation_id c"
    if "connection_state c \<noteq> StateInit" for c
    using that
    by (subst (1 2) wait_for_connect.simps)
       (cases "connection_state c"; simp add: Let_def other)
  have after: "connection_state (other_threads rl (c\<lparr>connection_state := StateConnecting,
        pending := ps\<rparr>)) \<noteq> StateInit" for c ps
    by (cases rl) (simp_all add: close_def)
  have both: "queue_ids (snd (wait_for_connect ms rl wk b)) = queue_ids b
      \<and> next_correlation_id (snd (wait_for_connect ms rl wk b)) = next_correlation_id b"
  proof (cases "connection_state b = StateInit")
    case True
    then show ?thesis
      using connecting [OF after [where c = b and ps = "pending b
                 @ [async_resolve (host (identity b)) (port (identity b))]"]]
      by (subst (1 2) wait_for_connect.simps) (simp add: Let_def other)
  next
    case False
    then show ?thesis by (rule connecting)
  qed
  then show "queue_ids (snd (wait_for_connect ms rl wk b)) = queue_ids b"
    and "next_correlation_id (snd (wait_for_connect ms rl wk b)) = next_correlation_id b"
    by simp_all
qed

lemma handle_resolve_ids [simp]:
  "queue_ids (state_of (handle_resolve ec eps b)) = queue_ids b"
  "next_correlation_id (state_of (handle_resolve ec eps b)) = next_correlation_id b"
  by (simp_all add: handle_resolve_def queue_ids_def close_def split: list.splits)

lemma handle_connect_ids [simp]:
  "queue_ids (handle_connect enc ec eps b) = queue_ids b"
  "next_correlation_id (handle_connect enc ec eps b) = next_correlation_id b"
  by (simp_all add: handle_connect_def Let_def queue_ids_def write_next_request_frame close_def
      split: list.splits)

lemma push_request_ids:
  "queue_ids (push_request enc req b) =
     (if is_closed b then queue_ids b else queue_ids b @ [next_correlation_id b])"
  "next_correlation_id (push_request enc req b) =
     (if is_closed b then next_correlation_id b else next_correlation_id b + 1)"
  by (simp_all add: push_request_def Let_def queue_ids_def write_next_request_frame)

lemma handle_write_ids:
  "queue_ids (state_of (handle_write ec n b)) = queue_ids b
   \<or> queue_ids (state_of (handle_write ec n b)) = tl (queue_ids b)"
  "next_correlation_id (state_of (handle_write ec n b)) = next_correlation_id b"
  by (auto simp: handle_write_def Let_def queue_ids_def set_exception_def
      split: list.splits promise.splits)

lemma fail_head_and_close_ids [simp]:
  "queue_ids (state_of (fail_head_and_close e b)) = queue_ids b"
  "next_correlation_id (state_of (fail_head_and_close e b)) = next_correlation_id b"
  by (auto simp: fail_head_and_close_def queue_ids_def set_exception_def close_def
      split: list.splits promise.splits)

lemma idle_reader_ids:
  assumes "response_handler_state b = RespHandlerStateIdle"
  shows "queue_ids (state_of (response_handler_actor ec n b)) = queue_ids b"
    and "next_correlation_id (state_of (response_handler_actor ec n b)) = next_correlation_id b"
  using assms
  by (subst response_handler_actor.simps; simp add: Let_def)+

lemma header_reader_ids:
  assumes "response_handler_state b = RespHandlerStateReadHeader"
  shows "queue_ids (state_of (response_handler_actor ec n b)) = queue_ids b"
    and "next_correlation_id (state_of (response_handler_actor ec n b)) = next_correlation_id b"
  using assms
  by (subst response_handler_actor.simps; simp add: Let_def split: prod.splits)+

lemma body_reader_ids:
  assumes "response_handler_state b = RespHandlerStateReadResp"
  shows "queue_ids (state_of (response_handler_actor ec n b)) = queue_ids b
     \<or> queue_ids (state_of (response_handler_actor ec n b)) = tl (queue_ids b)"
    and "next_correlation_id (state_of (response_handler_actor ec n b)) = next_correlation_id b"
proof -
  have tl_ids: "queue_ids (c\<lparr>in_flight := q\<rparr>) = map (\<lambda>r. correlation_id (header r)) q"
    "tl (queue_ids c) = map (\<lambda>r. correlation_id (header r)) (tl (in_flight c))" for c q
    by (simp_all add: queue_ids_def map_tl)
  show "queue_ids (state_of (response_handler_actor ec n b)) = queue_ids b
     \<or> queue_ids (state_of (response_handler_actor ec n b)) = tl (queue_ids b)"
    using assms
    by (subst (1 2) response_handler_actor.simps)
       (simp add: Let_def idle_reader_ids tl_ids split: option.splits)
  show "next_correlation_id (state_of (response_handler_actor ec n b)) = next_correlation_id b"
    using assms
    by (subst response_handler_actor.simps)
       (simp add: Let_def idle_reader_ids split: option.splits)
qed

lemma response_handler_actor_ids:
  "queue_ids (state_of (response_handler_actor ec n b)) = queue_ids b
   \<or> queue_ids (state_of (response_handler_actor ec n b)) = tl (queue_ids b)"
  "next_correlation_id (state_of (response_handler_actor ec n b)) = next_correlation_id b"
  by (cases "response_handler_state b";
      simp add: idle_reader_ids header_reader_ids body_reader_ids)+

subsection \<open>Consecutive ids\<close>

lemma ids_end_at_tl: "ids_end_at c xs \<Longrightarrow> ids_end_at c (tl xs)"
  by (cases xs) simp_all

lemma ids_end_at_snoc: "ids_end_at c xs \<Longrightarrow> ids_end_at (c + 1) (xs @ [c])"
  by (induction xs) (simp_all add: ac_simps)

lemma ids_end_at_nth:
  "ids_end_at c xs \<Longrightarrow> i < length xs \<Longrightarrow> xs ! i + of_nat (length xs - i) = c"
proof (induction xs arbitrary: i)
  case Nil
  then show ?case by simp
next
  case (Cons x xs)
  show ?case
  proof (cases i)
    case 0
    with Cons.prems show ?thesis by simp
  next
    case (Suc j)
    with Cons show ?thesis by simp
  qed
qed

lemma reachable_ids:
  assumes "reachable enc b"
  shows "ids_end_at (next_correlation_id b) (queue_ids b)"
  using assms
proof (induction rule: reachable.induct)
  case (constructed h p cid)
  then show ?case by (simp add: Broker_new_def queue_ids_def)
next
  case (run_push_request b ops req ops')
  then show ?case by (simp add: push_request_ids ids_end_at_snoc)
next
  case (write_completes b ops buffers ops' ec bytes_written)
  then show ?case
    using handle_write_ids [of ec bytes_written "b\<lparr>pending := ops @ ops'\<rparr>"]
    by (auto simp: ids_end_at_tl)
next
  case (read_header_completes b ops k ops' data ec)
  then show ?case
    using response_handler_actor_ids [of ec "length data"
        "b\<lparr>pending := ops @ ops', header_buffer := received data (header_buffer b)\<rparr>"]
    by (auto simp: ids_end_at_tl)
next
  case (read_response_completes b ops k ops' data ec)
  then show ?case
    using response_handler_actor_ids [of ec "length data"
        "b\<lparr>pending := ops @ ops',
           response_buffer := map_option (received data) (response_buffer b)\<rparr>"]
    by (auto simp: ids_end_at_tl)
next
  case (run_response_handler_actor b ops ops')
  then show ?case
    using response_handler_actor_ids [of 0 0 "b\<lparr>pending := ops @ ops'\<rparr>"]
    by (auto simp: ids_end_at_tl)
qed simp_all

subsection \<open>Arithmetic of 32-bit ids\<close>

lemma of_nat_neq_32:
  assumes "0 < m" and "m < n" and "n \<le> 2 ^ 32"
  shows "(of_nat m :: int32) \<noteq> of_nat n"
proof
  assume "(of_nat m :: int32) = of_nat n"
  then have "unat (of_nat m :: int32) = unat (of_nat n :: int32)"
    by simp
  then have eq: "m mod 2 ^ 32 = n mod 2 ^ 32"
    by (simp add: unat_of_nat)
  have m: "m mod 2 ^ 32 = m"
    using assms by simp
  show False
  proof (cases "n = 2 ^ 32")
    case True
    with eq m assms(1) show False by simp
  next
    case False
    with assms(3) have "n mod 2 ^ 32 = n" by simp
    with eq m assms(2) show False by simp
  qed
qed

lemma ids_end_at_distinct:
  assumes "ids_end_at c xs" and "length xs \<le> 2 ^ 32"
  shows "distinct xs"
proof -
  have "xs ! i \<noteq> xs ! j" if "i < j" and "j < length xs" for i j
  proof
    assume eq: "xs ! i = xs ! j"
    have "xs ! i + of_nat (length xs - i) = c"
      using assms(1) that by (intro ids_end_at_nth) simp_all
    moreover have "xs ! j + of_nat (length xs - j) = c"
      using assms(1) that by (intro ids_end_at_nth) simp_all
    ultimately have "(of_nat (length xs - j) :: int32) = of_nat (length xs - i)"
      using eq by (metis add_left_cancel)
    moreover have "0 < length xs - j" "length xs - j < length xs - i" "length xs - i \<le> 2 ^ 32"
      using that assms(2) by simp_all
    ultimately show False
      using of_nat_neq_32 by blast
  qed
  then have "xs ! i \<noteq> xs ! j" if "i < length xs" "j < length xs" "i \<noteq> j" for i j
    using that by (metis nat_neq_iff)
  then show ?thesis
    by (simp add: distinct_conv_nth)
qed

lemma sint_succ:
  assumes "sint (x :: int32) + 1 < 2 ^ 31"
  shows "sint (x + 1) = sint x + 1"
proof -
  have "- (2 ^ 31) \<le> sint x"
    using sint_ge [of x] by simp
  then have "signed_take_bit 31 (sint x + 1) = sint x + 1"
    using assms by (simp add: signed_take_bit_int_eq_self_iff)
  then show ?thesis
    by (simp add: sint_word_ariths)
qed

lemma sint_plus_of_nat:
  "sint (x :: int32) + int k < 2 ^ 31 \<Longrightarrow> sint (x + of_nat k) = sint x + int k"
proof (induction k)
  case 0
  then show ?case by simp
next
  case (Suc k)
  then have ih: "sint (x + of_nat k) = sint x + int k" by simp
  have "sint (x + of_nat k + 1) = sint (x + of_nat k) + 1"
    using Suc.prems ih by (intro sint_succ) simp
  with ih show ?case by (simp add: ac_simps)
qed

lemma ids_end_at_offset:
  assumes "ids_end_at c ys" and "i < length ys"
  shows "ys ! i = ys ! 0 + of_nat i"
proof -
  define n where "n = length ys"
  have i: "ys ! i + of_nat (n - i) = c"
    unfolding n_def using assms by (rule ids_end_at_nth)
  have "0 < length ys" using assms(2) by (cases ys) simp_all
  with assms(1) have "ys ! 0 + of_nat (length ys - 0) = c"
    by (rule ids_end_at_nth)
  then have z: "ys ! 0 + of_nat n = c"
    by (simp add: n_def)
  have "n = i + (n - i)"
    using assms(2) by (simp add: n_def)
  then have "(of_nat n :: int32) = of_nat i + of_nat (n - i)"
    by (metis of_nat_add)
  with z have "(ys ! 0 + of_nat i) + of_nat (n - i) = c"
    by (simp add: add.assoc)
  with i have "ys ! i + of_nat (n - i) = (ys ! 0 + of_nat i) + of_nat (n - i)"
    by simp
  then show ?thesis
    by (rule add_right_imp_eq)
qed

lemma ids_end_at_sorted:
  assumes "ids_end_at c (x # xs)" and "sint x + int (length xs) < 2 ^ 31"
  shows "sorted_wrt (\<lambda>a b. sint a < sint b) (x # xs)"
proof -
  have nth: "sint ((x # xs) ! i) = sint x + int i" if "i < length (x # xs)" for i
  proof -
    have "(x # xs) ! i = x + of_nat i"
      using ids_end_at_offset [OF assms(1) that] by simp
    moreover have "sint x + int i < 2 ^ 31"
      using assms(2) that by simp
    then have "sint (x + of_nat i) = sint x + int i"
      by (rule sint_plus_of_nat)
    ultimately show ?thesis
      by (simp only:)
  qed
  show ?thesis
    unfolding sorted_wrt_iff_nth_less
  proof (intro allI impI)
    fix i j assume ij: "i < j" "j < length (x # xs)"
    then have "i < length (x # xs)" by simp
    then have "sint ((x # xs) ! i) = sint x + int i" by (rule nth)
    moreover have "sint ((x # xs) ! j) = sint x + int j" using ij(2) by (rule nth)
    ultimately show "sint ((x # xs) ! i) < sint ((x # xs) ! j)"
      using ij(1) by simp
  qed
qed

subsection \<open>Calls before any connection attempt\<close>

lemma flood_0: "flood 0 = Broker_new ''kafka'' 9092 ''c1''"
  by (simp add: flood_def Broker_new_def)

lemma flood_Suc:
  "push_request enc scenario_request
     ((call 0 18 [] (flood n))\<lparr>pending := [] @ []\<rparr>) = flood (Suc n)"
  by (simp add: flood_def push_request_def call_def Let_def is_closed_def is_connected_def
      Broker_new_def enqueued_def)

lemma call_flood:
  "pending (call 0 18 [] (flood n)) = [] @ post_push_request scenario_request # []"
  by (simp add: call_def flood_def Broker_new_def scenario_request_def request_of_def Let_def)

lemma reachable_flood: "reachable enc (flood n)"
proof (induction n)
  case 0
  show ?case unfolding flood_0 by (rule reachable.constructed)
next
  case (Suc n)
  from Suc have "reachable enc (call 0 18 [] (flood n))"
    by (rule reachable.user_call)
  then have "reachable enc (push_request enc scenario_request
     ((call 0 18 [] (flood n))\<lparr>pending := [] @ []\<rparr>))"
    using call_flood by (rule reachable.run_push_request)
  then show ?case by (simp only: flood_Suc)
qed

lemma queue_ids_flood: "queue_ids (flood n) = map (\<lambda>i. 1 + of_nat i) [0..<n]"
  by (simp add: flood_def queue_ids_def enqueued_def comp_def)

subsection \<open>Requests that come and go\<close>

lemma encode_enqueued:
  "encode_RequestHeader (header (enqueued i))
     = Some (be16 18 @ be16 0 @ be32 i @ be16 2 @ [99, 49])"
  by (simp add: encode_RequestHeader_def example_defs)

lemma churn_written:
  assumes "reachable encode_RequestHeader (churn n)"
  shows "reachable encode_RequestHeader
     ((churn n)\<lparr>next_correlation_id := 1 + of_nat n + 1,
        in_flight := [enqueued (1 + of_nat n)],
        pending := [async_write [get_as_buffer_sequence_head
                      (be16 18 @ be16 0 @ be32 (1 + of_nat n) @ be16 2 @ [99, 49]) 0, []]]\<rparr>)"
proof -
  have "reachable encode_RequestHeader (call 0 18 [] (churn n))"
    using assms by (rule reachable.user_call)
  moreover have "pending (call 0 18 [] (churn n)) = [] @ post_push_request scenario_request # []"
    by (simp add: call_def churn_def example_defs)
  ultimately have "reachable encode_RequestHeader (push_request encode_RequestHeader scenario_request
      ((call 0 18 [] (churn n))\<lparr>pending := [] @ []\<rparr>))"
    by (rule reachable.run_push_request)
  moreover have "(call 0 18 [] (churn n))\<lparr>pending := [] @ []\<rparr> = churn n"
    by (simp add: call_def churn_def example_defs)
  moreover have "push_request encode_RequestHeader scenario_request (churn n)
      = (churn n)\<lparr>next_correlation_id := 1 + of_nat n + 1,
        in_flight := [enqueued (1 + of_nat n)],
        pending := [async_write [get_as_buffer_sequence_head
                      (be16 18 @ be16 0 @ be32 (1 + of_nat n) @ be16 2 @ [99, 49]) 0, []]]\<rparr>"
    using encode_enqueued [of "1 + of_nat n"]
    by (simp add: push_request_def write_next_request_def Let_def is_closed_def is_connected_def
        churn_def example_defs)
  ultimately show ?thesis by simp
qed

lemma reachable_churn: "reachable encode_RequestHeader (churn n)"
proof (induction n)
  case 0
  have "churn 0 = connected_broker_of ''c1''"
    by (simp add: churn_def example_defs)
  then show ?case by (simp add: reachable_connected)
next
  case (Suc n)
  let ?w = "async_write [get_as_buffer_sequence_head
                      (be16 18 @ be16 0 @ be32 (1 + of_nat n) @ be16 2 @ [99, 49]) 0, []]"
  let ?b = "(churn n)\<lparr>next_correlation_id := 1 + of_nat n + 1,
        in_flight := [enqueued (1 + of_nat n)], pending := [?w]\<rparr>"
  have "reachable encode_RequestHeader ?b"
    using Suc by (rule churn_written)
  moreover have "pending ?b = [] @ ?w # []"
    by simp
  ultimately have "reachable encode_RequestHeader
      (state_of (handle_write 104 0 (?b\<lparr>pending := [] @ []\<rparr>)))"
    by (rule reachable.write_completes)
  moreover have "handle_write 104 0 (?b\<lparr>pending := [] @ []\<rparr>) = Returns (churn (Suc n))"
    by (simp add: handle_write_def set_exception_def churn_def example_defs)
  ultimately show ?case by simp
qed

lemma reachable_two_in_flight: "reachable encode_RequestHeader (two_in_flight n)"
proof -
  let ?w = "async_write [get_as_buffer_sequence_head
                      (be16 18 @ be16 0 @ be32 (1 + of_nat n) @ be16 2 @ [99, 49]) 0, []]"
  let ?b = "(churn n)\<lparr>next_correlation_id := 1 + of_nat n + 1,
        in_flight := [enqueued (1 + of_nat n)], pending := [?w]\<rparr>"
  let ?c = "(churn n)\<lparr>next_correlation_id := 1 + of_nat n + 1,
        in_flight := [(enqueued (1 + of_nat n))\<lparr>sent := True\<rparr>],
        pending := [post_response_handler_actor]\<rparr>"
  have "reachable encode_RequestHeader ?b"
    using reachable_churn by (rule churn_written)
  moreover have "pending ?b = [] @ ?w # []"
    by simp
  ultimately have "reachable encode_RequestHeader
      (state_of (handle_write 0 16 (?b\<lparr>pending := [] @ []\<rparr>)))"
    by (rule reachable.write_completes)
  moreover have "handle_write 0 16 (?b\<lparr>pending := [] @ []\<rparr>) = Returns ?c"
    by (simp add: handle_write_def churn_def example_defs)
  ultimately have "reachable encode_RequestHeader ?c" by simp
  then have "reachable encode_RequestHeader (call 0 18 [] ?c)"
    by (rule reachable.user_call)
  moreover have "pending (call 0 18 [] ?c)
      = [post_response_handler_actor] @ post_push_request scenario_request # []"
    by (simp add: call_def churn_def example_defs)
  ultimately have "reachable encode_RequestHeader (push_request encode_RequestHeader scenario_request
      ((call 0 18 [] ?c)\<lparr>pending := [post_response_handler_actor] @ []\<rparr>))"
    by (rule reachable.run_push_request)
  moreover have "push_request encode_RequestHeader scenario_request
      ((call 0 18 [] ?c)\<lparr>pending := [post_response_handler_actor] @ []\<rparr>) = two_in_flight n"
    by (simp add: push_request_def write_next_request_def call_def Let_def is_closed_def
        is_connected_def two_in_flight_def churn_def example_defs)
  ultimately show ?thesis by simp
qed

lemma queue_ids_two_in_flight:
  "queue_ids (two_in_flight n) = [1 + of_nat n, 1 + of_nat n + 1]"
  by (simp add: queue_ids_def two_in_flight_def example_defs)

lemma wrapped_ids: "queue_ids (two_in_flight 2147483646) = [2147483647, - 2147483648]"
  by (simp add: queue_ids_two_in_flight)

text \<open>
  C9, as the code has it.  The counter starts at 1 and every enqueue adds exactly one to it
  in 32-bit arithmetic, giving the old value to the request appended at the tail.  In every
  reachable state the ids in the queue are consecutive in 32-bit arithmetic and end one
  below the counter.  Hence they are pairwise distinct while the queue holds at most
  \<open>2^32\<close> entries, and strictly increasing as signed numbers while they do not run past
  \<open>2^31 - 1\<close> inside the queue.
\<close>

theorem correlation_ids_consecutive:
  assumes "reachable enc b"
  shows "next_correlation_id (Broker_new h p cid) = 1
       \<and> (\<not> is_closed b \<longrightarrow>
            next_correlation_id (push_request enc req b) = next_correlation_id b + 1
          \<and> queue_ids (push_request enc req b) = queue_ids b @ [next_correlation_id b])
       \<and> ids_end_at (next_correlation_id b) (queue_ids b)
       \<and> (length (in_flight b) \<le> 2 ^ 32 \<longrightarrow> distinct (queue_ids b))
       \<and> (in_flight b \<noteq> []
            \<and> sint (hd (queue_ids b)) + int (length (in_flight b)) \<le> 2 ^ 31
          \<longrightarrow> sorted_wrt (\<lambda>x y. sint x < sint y) (queue_ids b))"
proof -
  have inv: "ids_end_at (next_correlation_id b) (queue_ids b)"
    using assms by (rule reachable_ids)
  have "distinct (queue_ids b)" if "length (in_flight b) \<le> 2 ^ 32"
    using inv that by (intro ids_end_at_distinct [OF inv]) (simp add: queue_ids_def)
  moreover have "sorted_wrt (\<lambda>x y. sint x < sint y) (queue_ids b)"
    if ne: "in_flight b \<noteq> []"
      and bound: "sint (hd (queue_ids b)) + int (length (in_flight b)) \<le> 2 ^ 31"
  proof -
    obtain x xs where q: "queue_ids b = x # xs"
      by (cases "queue_ids b") (use ne in \<open>simp_all add: queue_ids_def\<close>)
    then have "length (in_flight b) = Suc (length xs)"
      by (metis length_Cons length_map queue_ids_def)
    with bound q have "sint x + int (length xs) < 2 ^ 31" by simp
    with inv q show ?thesis by (simp only: ids_end_at_sorted)
  qed
  ultimately show ?thesis
    using inv by (simp add: push_request_ids Broker_new_def)
qed

theorem correlation_ids_consecutive_witness:
  "reachable encode_RequestHeader (flood 3)
   \<and> next_correlation_id (flood 3) = 4
   \<and> queue_ids (flood 3) = [1, 2, 3]
   \<and> queue_ids (push_request encode_RequestHeader scenario_request (flood 3)) = [1, 2, 3, 4]
   \<and> next_correlation_id (push_request encode_RequestHeader scenario_request (flood 3)) = 5
   \<and> distinct (queue_ids (flood 3))
   \<and> sorted_wrt (\<lambda>x y. sint x < sint y) (queue_ids (flood 3))"
proof -
  have r: "reachable encode_RequestHeader (flood 3)"
    by (rule reachable_flood)
  have ids: "queue_ids (flood 3) = [1, 2, 3]"
    by (simp add: queue_ids_flood upt_rec)
  have c: "next_correlation_id (flood 3) = 4"
    by (simp add: flood_def)
  have len: "length (in_flight (flood 3)) = 3" "in_flight (flood 3) \<noteq> []"
    "\<not> is_closed (flood 3)"
    by (simp_all add: flood_def upt_rec is_closed_def Broker_new_def)
  show ?thesis
    using correlation_ids_consecutive [OF r, of "''kafka''" 9092 "''c1''" scenario_request]
      r ids c len
    by simp
qed

text \<open>
  C9 as stated fails once the 32-bit counter wraps.  After \<open>2^31 - 2\<close> requests that came
  and went, two more are in flight with the ids \<open>2^31 - 1\<close> and \<open>- 2^31\<close>: not increasing.
  And after \<open>2^32 + 1\<close> calls made before any connection attempt the queue holds the ids
  \<open>1, 2, \<dots>, 2^32 - 1, 0, 1\<close>: the first and the last entry carry the same id.
\<close>

theorem correlation_ids_counterexample:
  "reachable encode_RequestHeader (two_in_flight 2147483646)
   \<and> queue_ids (two_in_flight 2147483646) = [2147483647, - 2147483648]
   \<and> \<not> sorted_wrt (\<lambda>x y. sint x < sint y) (queue_ids (two_in_flight 2147483646))
   \<and> reachable encode_RequestHeader (flood 4294967297)
   \<and> \<not> distinct (queue_ids (flood 4294967297))"
proof -
  let ?ids = "queue_ids (flood 4294967297)"
  have len: "length ?ids = 4294967297"
    by (simp add: queue_ids_flood)
  have first: "?ids ! 0 = 1"
    unfolding queue_ids_flood by (subst nth_map) simp_all
  have last: "?ids ! 4294967296 = 1"
    unfolding queue_ids_flood by (subst nth_map) simp_all
  have "\<not> distinct ?ids"
  proof
    assume "distinct ?ids"
    then have "(?ids ! 0 = ?ids ! 4294967296) = ((0::nat) = 4294967296)"
      using len by (intro nth_eq_iff_index_eq) simp_all
    with first last show False by simp
  qed
  then show ?thesis
    using reachable_flood reachable_two_in_flight by (simp add: wrapped_ids)
qed

end
